theory Spec2Isabelle
  imports Complex_Main "HOL-Library.AList" "HOL-Library.Multiset" "HOL-Library.Product_Lexorder"
begin

section \<open>Strings and numbers of the host language\<close>

text \<open>
  A string of the program is a \<^typ>\<open>string\<close>: the list of the bytes of its UTF-8 encoding
  (an ASCII character is one byte). Two strings of the program are equal exactly when their
  encodings are. A \<^verbatim>\<open>Record<string, T>\<close> is an association list read with
  \<^const>\<open>map_of\<close>: the own keys of the object, in insertion order.

  White space is what \<^verbatim>\<open>String.prototype.trim\<close>, \<^verbatim>\<open>parseFloat\<close> and the regular
  expression class \<^verbatim>\<open>\s\<close> take for it, the WhiteSpace and LineTerminator code points of
  the language: U+0009 to U+000D and U+0020 (one byte), U+00A0 (two bytes), U+1680, U+2000
  to U+200A, U+2028, U+2029, U+202F, U+205F, U+3000 and U+FEFF (three bytes).
\<close>

definition isWhiteSpace :: "char \<Rightarrow> bool" where
  "isWhiteSpace c = (c \<in> set [CHR 0x09, CHR 0x0A, CHR 0x0B, CHR 0x0C, CHR 0x0D, CHR '' ''])"

definition isWhiteSpace2 :: "char \<Rightarrow> char \<Rightarrow> bool" where
  "isWhiteSpace2 a b = (a = CHR 0xC2 \<and> b = CHR 0xA0)"

definition isWhiteSpace3 :: "char \<Rightarrow> char \<Rightarrow> char \<Rightarrow> bool" where
  "isWhiteSpace3 a b c =
     ((a = CHR 0xE1 \<and> b = CHR 0x9A \<and> c = CHR 0x80) \<or>
      (a = CHR 0xE2 \<and> b = CHR 0x80 \<and>
         c \<in> set [CHR 0x80, CHR 0x81, CHR 0x82, CHR 0x83, CHR 0x84, CHR 0x85, CHR 0x86, CHR 0x87,
                  CHR 0x88, CHR 0x89, CHR 0x8A, CHR 0xA8, CHR 0xA9, CHR 0xAF]) \<or>
      (a = CHR 0xE2 \<and> b = CHR 0x81 \<and> c = CHR 0x9F) \<or>
      (a = CHR 0xE3 \<and> b = CHR 0x80 \<and> c = CHR 0x80) \<or>
      (a = CHR 0xEF \<and> b = CHR 0xBB \<and> c = CHR 0xBF))"

text \<open>The string without its longest prefix of white space characters.\<close>

fun skipWhiteSpace :: "string \<Rightarrow> string" where
  "skipWhiteSpace (a # b # c # r) =
     (if isWhiteSpace a then skipWhiteSpace (b # c # r)
      else if isWhiteSpace2 a b then skipWhiteSpace (c # r)
      else if isWhiteSpace3 a b c then skipWhiteSpace r
      else a # b # c # r)"
| "skipWhiteSpace [a, b] =
     (if isWhiteSpace a then skipWhiteSpace [b]
      else if isWhiteSpace2 a b then []
      else [a, b])"
| "skipWhiteSpace [a] = (if isWhiteSpace a then [] else [a])"
| "skipWhiteSpace [] = []"

definition trimStart :: "string \<Rightarrow> string" where
  "trimStart s = skipWhiteSpace s"

text \<open>The string without its longest suffix of white space characters.\<close>

fun trimEnd :: "string \<Rightarrow> string" where
  "trimEnd [] = []"
| "trimEnd (a # r) = (if skipWhiteSpace (a # r) = [] then [] else a # trimEnd r)"

definition trim :: "string \<Rightarrow> string" where
  "trim s = trimEnd (trimStart s)"




text \<open>The value of \<^verbatim>\<open>obj[key] || ""\<close> for an object of strings.\<close>

definition orEmpty :: "string option \<Rightarrow> string" where
  "orEmpty v = (case v of None \<Rightarrow> [] | Some s \<Rightarrow> s)"

text \<open>
  A number of the program is a double: a finite value, kept as the rational it
  denotes (the two zeros are not told apart, and no operation of the model does), or one of
  the two infinities; \<^verbatim>\<open>NaN\<close> and \<^verbatim>\<open>null\<close> are the \<^const>\<open>None\<close> of an optional
  number.
\<close>

datatype number = Num rat | PosInfinity | NegInfinity

text \<open>\<^verbatim>\<open>a >= b\<close> on numbers that are not \<^verbatim>\<open>NaN\<close>.\<close>

fun geNumber :: "number \<Rightarrow> number \<Rightarrow> bool" where
  "geNumber PosInfinity b = True"
| "geNumber a NegInfinity = True"
| "geNumber (Num a) (Num b) = (b \<le> a)"
| "geNumber a b = False"

text \<open>
  The double nearest to a fraction \<open>n / d\<close> (\<open>d\<close> positive), as IEEE 754 rounds to nearest
  with ties to even. \<open>floorLog2 n d\<close> is the exponent \<open>e\<close> of the power of two at or below
  the fraction; the doubles around the fraction are the multiples of two to the power
  \<open>u = e - 52\<close> (\<open>u = - 1074\<close> among the subnormals); \<open>m\<close> is the nearest multiple, and a
  result of two to the power 1024 or more is an infinity.
\<close>

fun bitLength :: "nat \<Rightarrow> nat" where
  "bitLength n = (if n = 0 then 0 else Suc (bitLength (n div 2)))"

declare bitLength.simps [simp del]

definition floorLog2 :: "nat \<Rightarrow> nat \<Rightarrow> int" where
  "floorLog2 n d =
     (let k = int (bitLength n) - int (bitLength d)
      in if d * 2 ^ nat k \<le> n * 2 ^ nat (- k) then k else k - 1)"

definition roundHalfEven :: "nat \<Rightarrow> nat \<Rightarrow> nat" where
  "roundHalfEven a b =
     (let q = a div b; r = a mod b
      in if 2 * r < b then q
         else if b < 2 * r then q + 1
         else if even q then q
         else q + 1)"

definition scale2 :: "nat \<Rightarrow> int \<Rightarrow> rat" where
  "scale2 m u = (if 0 \<le> u then of_nat (m * 2 ^ nat u) else of_nat m / of_nat (2 ^ nat (- u)))"

definition toDouble :: "bool \<Rightarrow> nat \<Rightarrow> nat \<Rightarrow> number" where
  "toDouble neg n d =
     (if n = 0 then Num 0
      else
        let e = floorLog2 n d;
            u = max (e - 52) (- 1074);
            m = roundHalfEven (n * 2 ^ nat (- u)) (d * 2 ^ nat u)
        in if 2 ^ 1024 \<le> m * 2 ^ nat u then (if neg then NegInfinity else PosInfinity)
           else Num (if neg then - scale2 m u else scale2 m u))"

definition isDigit :: "char \<Rightarrow> bool" where
  "isDigit c = (c \<in> set ''0123456789'')"

definition digitVal :: "char \<Rightarrow> nat" where
  "digitVal c =
     (case map_of (zip ''0123456789'' [0, 1, 2, 3, 4, 5, 6, 7, 8, 9]) c of
        Some d \<Rightarrow> d
      | None \<Rightarrow> 0)"

definition digitsVal :: "string \<Rightarrow> nat" where
  "digitsVal ds = foldl (\<lambda>a c. 10 * a + digitVal c) 0 ds"

definition takeSign :: "string \<Rightarrow> bool \<times> string" where
  "takeSign s =
     (case s of
        [] \<Rightarrow> (False, s)
      | c # r \<Rightarrow>
          if c = CHR ''-'' then (True, r)
          else if c = CHR ''+'' then (False, r)
          else (False, s))"

definition exponentPart :: "string \<Rightarrow> int" where
  "exponentPart s =
     (case s of
        [] \<Rightarrow> 0
      | c # r \<Rightarrow>
          if c = CHR ''e'' \<or> c = CHR ''E'' then
            (let (neg, d) = takeSign r; ds = takeWhile isDigit d
             in if ds = [] then 0
                else if neg then - int (digitsVal ds) else int (digitsVal ds))
          else 0)"

text \<open>
  \<^verbatim>\<open>parseFloat\<close>: leading white space is skipped, then the longest prefix that is a
  decimal literal is read (sign, \<^verbatim>\<open>Infinity\<close>, or digits with an optional fraction and
  an optional exponent); no such prefix gives \<^verbatim>\<open>NaN\<close>. The literal with integer digits
  \<open>ip\<close>, fraction digits \<open>fp\<close> and exponent part \<open>r2\<close> denotes \<open>digitsVal (ip @ fp)\<close> times
  ten to the power \<open>x = exponentPart r2 - length fp\<close>, and the result is the double nearest
  to it.
\<close>

definition parseFloat :: "string \<Rightarrow> number option" where
  "parseFloat s =
     (let (neg, u) = takeSign (trimStart s)
      in if take 8 u = ''Infinity'' then Some (if neg then NegInfinity else PosInfinity)
         else
           let ip = takeWhile isDigit u;
               r1 = dropWhile isDigit u;
               fp = (case r1 of [] \<Rightarrow> []
                     | c # r \<Rightarrow> if c = CHR ''.'' then takeWhile isDigit r else []);
               r2 = (case r1 of [] \<Rightarrow> []
                     | c # r \<Rightarrow> if c = CHR ''.'' then dropWhile isDigit r else r1)
           in if ip = [] \<and> fp = [] then None
              else
                let x = exponentPart r2 - int (length fp)
                in Some (toDouble neg (digitsVal (ip @ fp) * 10 ^ nat x) (10 ^ nat (- x))))"

section \<open>Link generator: visibility of an intro field\<close>

record FieldShowIf =
  sourceField :: string
  rule :: string

record IntroField =
  key :: string
  label :: string
  type :: string
  options :: "string list option"
  mapTo :: "(string \<times> number) list option"
  showIf :: "FieldShowIf option"

text \<open>
  The match of \<^verbatim>\<open>/^>=\s*([0-9]+)$/\<close>: the captured digits, or \<^const>\<open>None\<close> when the
  rule does not match.
\<close>

definition matchGeRule :: "string \<Rightarrow> string option" where
  "matchGeRule r =
     (case r of
        c1 # c2 # rest \<Rightarrow>
          if c1 = CHR ''>'' \<and> c2 = CHR ''='' then
            (let ds = skipWhiteSpace rest
             in if ds \<noteq> [] \<and> list_all isDigit ds then Some ds else None)
          else None
      | _ \<Rightarrow> None)"

text \<open>
  The number a raw value stands for (lines 135 to 142 of \<^verbatim>\<open>shouldShowField\<close>): the entry
  of the source field's \<^verbatim>\<open>mapTo\<close> table for the raw value when there is one, else the
  numeric parse of the raw value, else \<^verbatim>\<open>null\<close>.
\<close>

definition numericOf :: "IntroField list \<Rightarrow> string \<Rightarrow> string \<Rightarrow> number option" where
  "numericOf allIntro srcKey valRaw =
     (let src = find (\<lambda>f. key f = srcKey) allIntro;
          mapped = (case src of
                      None \<Rightarrow> None
                    | Some f \<Rightarrow> (case mapTo f of None \<Rightarrow> None | Some m \<Rightarrow> map_of m valRaw))
      in case mapped of
           Some n \<Rightarrow> Some n
         | None \<Rightarrow> parseFloat valRaw)"

definition shouldShowField ::
    "IntroField \<Rightarrow> (string \<times> string) list \<Rightarrow> IntroField list \<Rightarrow> bool" where
  "shouldShowField fld ivData allIntro =
     (case IntroField.showIf fld of
        None \<Rightarrow> True
      | Some sh \<Rightarrow>
          (case map_of ivData (FieldShowIf.sourceField sh) of
             None \<Rightarrow> False
           | Some valRaw \<Rightarrow>
               if valRaw = [] \<or> trim valRaw = [] then False
               else
                 (case numericOf allIntro (FieldShowIf.sourceField sh) valRaw of
                    None \<Rightarrow> False
                  | Some numeric \<Rightarrow>
                      (case matchGeRule (rule sh) of
                         Some m1 \<Rightarrow>
                           (case parseFloat m1 of
                              Some bound \<Rightarrow> geNumber numeric bound
                            | None \<Rightarrow> False)
                       | None \<Rightarrow> True))))"

section \<open>Link generator: visibility of a step group\<close>

record GroupShowIf =
  sourceField :: string
  allowedValues :: "string list"

record StepGroup =
  label :: string
  category :: string
  keys :: "string list"
  showIf :: "GroupShowIf option"


section \<open>Session detail page: aggregation of the photos of a chantier\<close>

text \<open>
  The decimal rendering of a counter inside a template literal, \<^verbatim>\<open>`${k}`\<close>.
\<close>

definition digitChar :: "nat \<Rightarrow> char" where
  "digitChar d = ''0123456789'' ! d"

fun showNat :: "nat \<Rightarrow> string" where
  "showNat n = (if n < 10 then [digitChar n] else showNat (n div 10) @ [digitChar (n mod 10)])"

declare showNat.simps [simp del]

text \<open>Distinct counters have distinct renderings; the loop below ends for that reason.\<close>

lemma digitChar_inj: "a < 10 \<Longrightarrow> b < 10 \<Longrightarrow> digitChar a = digitChar b \<Longrightarrow> a = b"
proof -
  assume a: "a < 10" and b: "b < 10" and e: "digitChar a = digitChar b"
  have d: "distinct ''0123456789''" by simp
  have "a < length ''0123456789''" "b < length ''0123456789''" using a b by simp_all
  then show "a = b" using e d unfolding digitChar_def by (simp only: nth_eq_iff_index_eq)
qed

lemma showNat_not_Nil: "showNat n \<noteq> []"
  by (subst showNat.simps) simp

lemma showNat_inj: "showNat n = showNat m \<Longrightarrow> n = m"
proof (induction n arbitrary: m rule: showNat.induct)
  case (1 n)
  show ?case
  proof (cases "n < 10")
    case True
    then have n: "showNat n = [digitChar n]" by (subst showNat.simps) simp
    show ?thesis
    proof (cases "m < 10")
      case True
      then have "showNat m = [digitChar m]" by (subst showNat.simps) simp
      with n "1.prems" have "digitChar n = digitChar m" by simp
      then show ?thesis using \<open>n < 10\<close> \<open>m < 10\<close> digitChar_inj by blast
    next
      case False
      then have "showNat m = showNat (m div 10) @ [digitChar (m mod 10)]"
        by (subst showNat.simps) simp
      with n "1.prems" have "showNat (m div 10) = []" by simp
      then show ?thesis using showNat_not_Nil by blast
    qed
  next
    case False
    then have n: "showNat n = showNat (n div 10) @ [digitChar (n mod 10)]"
      by (subst showNat.simps) simp
    show ?thesis
    proof (cases "m < 10")
      case True
      then have "showNat m = [digitChar m]" by (subst showNat.simps) simp
      with n "1.prems" have "showNat (n div 10) = []" by simp
      then show ?thesis using showNat_not_Nil by blast
    next
      case m: False
      then have "showNat m = showNat (m div 10) @ [digitChar (m mod 10)]"
        by (subst showNat.simps) simp
      with n "1.prems" have a: "showNat (n div 10) = showNat (m div 10)"
        and b: "digitChar (n mod 10) = digitChar (m mod 10)" by simp_all
      from a have "n div 10 = m div 10" using "1.IH" False by blast
      moreover from b have "n mod 10 = m mod 10" by (intro digitChar_inj) simp_all
      ultimately show ?thesis by (metis div_mult_mod_eq)
    qed
  qed
qed

text \<open>
  An entry of \<^verbatim>\<open>idMap\<close> is the pair \<^verbatim>\<open>{ session_id, photo_id }\<close>; \<^verbatim>\<open>idMap\<close> itself
  is an association list of own keys, and \<^verbatim>\<open>idMap[k] = v\<close> is \<^const>\<open>AList.update\<close>.
\<close>

type_synonym origin = "string \<times> string"

text \<open>\<^verbatim>\<open>`${composite}__${k}`\<close>\<close>

definition suffixed :: "string \<Rightarrow> nat \<Rightarrow> string" where
  "suffixed composite k = composite @ ''__'' @ showNat k"

lemma suffixed_inj: "suffixed c j = suffixed c k \<Longrightarrow> j = k"
  by (simp add: suffixed_def showNat_inj)

text \<open>
  The loop \<^verbatim>\<open>while (idMap[finalId]) { finalId = `${composite}__${k++}`; }\<close>, entered
  with \<^verbatim>\<open>finalId = composite\<close> and \<^verbatim>\<open>k = 2\<close>. An entry of \<^verbatim>\<open>idMap\<close> is an object,
  so the test is that of the presence of the key.
\<close>

function freshId :: "(string \<times> origin) list \<Rightarrow> string \<Rightarrow> nat \<Rightarrow> string \<Rightarrow> string" where
  "freshId idMap composite k finalId =
     (if map_of idMap finalId \<noteq> None then freshId idMap composite (k + 1) (suffixed composite k)
      else finalId)"
  by pat_completeness auto

text \<open>
  The measure of the loop: the suffixed identifiers from \<open>k\<close> on that are already keys of
  the map, plus one while the current candidate is a key.
\<close>

definition pendingIds :: "(string \<times> origin) list \<Rightarrow> string \<Rightarrow> nat \<Rightarrow> nat set" where
  "pendingIds idMap composite k = {j. k \<le> j \<and> suffixed composite j \<in> fst ` set idMap}"

lemma finite_pendingIds: "finite (pendingIds idMap composite k)"
proof -
  have "pendingIds idMap composite k \<subseteq> (suffixed composite) -` (fst ` set idMap)"
    by (auto simp: pendingIds_def)
  moreover have "finite ((suffixed composite) -` (fst ` set idMap))"
    by (rule finite_vimageI) (auto simp: inj_on_def dest: suffixed_inj)
  ultimately show ?thesis by (rule finite_subset)
qed

lemma pendingIds_step:
  "pendingIds idMap composite k =
     (if suffixed composite k \<in> fst ` set idMap then insert k (pendingIds idMap composite (k + 1))
      else pendingIds idMap composite (k + 1))"
  by (auto simp: pendingIds_def Suc_le_eq le_less  dest: suffixed_inj) 

lemma freshId_decreases:
  "card (pendingIds idMap composite (k + 1)) +
     (if map_of idMap (suffixed composite k) \<noteq> None then 1 else 0)
   = card (pendingIds idMap composite k)"
proof (cases "suffixed composite k \<in> fst ` set idMap")
  case True
  then have "pendingIds idMap composite k = insert k (pendingIds idMap composite (k + 1))"
    by (subst pendingIds_step) simp
  moreover have "k \<notin> pendingIds idMap composite (k + 1)"
    by (simp add: pendingIds_def)
  ultimately have "card (pendingIds idMap composite k) = Suc (card (pendingIds idMap composite (k + 1)))"
    using finite_pendingIds [of idMap composite "k + 1"] by simp
  moreover have "map_of idMap (suffixed composite k) \<noteq> None"
    using True by (simp add: map_of_eq_None_iff)
  ultimately show ?thesis by simp
next
  case False
  then have "pendingIds idMap composite k = pendingIds idMap composite (k + 1)"
    by (subst pendingIds_step) simp
  moreover have "map_of idMap (suffixed composite k) = None"
    using False by (simp add: map_of_eq_None_iff)
  ultimately show ?thesis by simp
qed

definition freshIdMeasure :: "(string \<times> origin) list \<times> string \<times> nat \<times> string \<Rightarrow> nat" where
  "freshIdMeasure = (\<lambda>(idMap, composite, k, finalId).
     card (pendingIds idMap composite k) + (if map_of idMap finalId \<noteq> None then 1 else 0))"

lemma freshIdMeasure_less:
  assumes "map_of idMap finalId \<noteq> None"
  shows "freshIdMeasure (idMap, composite, k + 1, suffixed composite k)
           < freshIdMeasure (idMap, composite, k, finalId)"
proof -
  have "freshIdMeasure (idMap, composite, k + 1, suffixed composite k)
          = card (pendingIds idMap composite k)"
    unfolding freshIdMeasure_def prod.case by (rule freshId_decreases)
  moreover have "freshIdMeasure (idMap, composite, k, finalId)
          = card (pendingIds idMap composite k) + 1"
    unfolding freshIdMeasure_def prod.case using assms by (simp del: map_of_eq_None_iff)
  ultimately show ?thesis by simp
qed

termination freshId
proof (relation "measure freshIdMeasure")
  show "wf (measure freshIdMeasure)" by simp
next
  fix idMap :: "(string \<times> origin) list" and composite finalId :: string and k :: nat
  assume "map_of idMap finalId \<noteq> None"
  then have "freshIdMeasure (idMap, composite, k + 1, suffixed composite k)
           < freshIdMeasure (idMap, composite, k, finalId)"
    by (rule freshIdMeasure_less)
  then show "((idMap, composite, k + 1, suffixed composite k), (idMap, composite, k, finalId))
               \<in> measure freshIdMeasure"
    by (simp only: in_measure)
qed

declare freshId.simps [simp del]


text \<open>
  A photo and a session, with the fields the aggregation reads or writes. The fields
  \<^verbatim>\<open>__session_id\<close> and \<^verbatim>\<open>__photo_id\<close> that the page adds are \<open>ui_session_id\<close> and
  \<open>ui_photo_id\<close>; \<^verbatim>\<open>id\<close> is \<open>id'\<close>. A timestamp that is not a number is \<^const>\<open>None\<close>.
\<close>

record SessionPhoto =
  id' :: string
  url :: string
  timestamp :: "rat option"
  ui_session_id :: "string option"
  ui_photo_id :: "string option"

record SessionDetail =
  session_id :: string
  status :: "string option"
  created_at :: "rat option"
  updated_at :: "rat option"
  photos :: "SessionPhoto list option"

text \<open>\<^verbatim>\<open>typeof x === "number" ? x : 0\<close>\<close>

definition numberOrZero :: "rat option \<Rightarrow> rat" where
  "numberOrZero x = (case x of None \<Rightarrow> 0 | Some v \<Rightarrow> v)"

text \<open>The comparator of the sort: by \<^verbatim>\<open>created_at\<close>, then by \<^verbatim>\<open>updated_at\<close>.\<close>

definition compareSessions :: "SessionDetail \<Rightarrow> SessionDetail \<Rightarrow> rat" where
  "compareSessions a b =
     (let ac = numberOrZero (created_at a); bc = numberOrZero (created_at b)
      in if ac \<noteq> bc then ac - bc
         else
           let au = numberOrZero (updated_at a); bu = numberOrZero (updated_at b)
           in au - bu)"

text \<open>
  \<^verbatim>\<open>[...xs].sort(cmp)\<close> is a stable sort: an element goes before the first element that
  does not compare smaller, and elements that compare equal keep their order.
\<close>

fun insortBy :: "('a \<Rightarrow> 'a \<Rightarrow> rat) \<Rightarrow> 'a \<Rightarrow> 'a list \<Rightarrow> 'a list" where
  "insortBy cmp x [] = [x]"
| "insortBy cmp x (y # ys) = (if cmp x y \<le> 0 then x # y # ys else y # insortBy cmp x ys)"

definition sortBy :: "('a \<Rightarrow> 'a \<Rightarrow> rat) \<Rightarrow> 'a list \<Rightarrow> 'a list" where
  "sortBy cmp xs = foldr (insortBy cmp) xs []"

text \<open>\<^verbatim>\<open>s.photos || []\<close>\<close>

definition photosOf :: "SessionDetail \<Rightarrow> SessionPhoto list" where
  "photosOf s = (case photos s of None \<Rightarrow> [] | Some ps \<Rightarrow> ps)"

text \<open>
  The body of the inner loop, for the photo \<open>p\<close> of the session \<open>sid\<close>: a photo or a
  session without identifier is skipped; otherwise a fresh identifier is chosen, recorded
  in \<^verbatim>\<open>idMap\<close> and given to the copy of the photo that is pushed.
\<close>

definition addPhoto ::
  "string \<Rightarrow> SessionPhoto list \<times> (string \<times> origin) list \<Rightarrow> SessionPhoto
     \<Rightarrow> SessionPhoto list \<times> (string \<times> origin) list" where
  "addPhoto sid acc p =
     (let (all, idMap) = acc; pid = id' p
      in if sid = [] \<or> pid = [] then acc
         else
           let composite = sid @ ''__'' @ pid;
               finalId = freshId idMap composite 2 composite
           in (all @ [p\<lparr>id' := finalId, ui_session_id := Some sid, ui_photo_id := Some pid\<rparr>],
               AList.update finalId (sid, pid) idMap))"

text \<open>The inner loop, over the photos of one session.\<close>

definition addSession ::
  "SessionPhoto list \<times> (string \<times> origin) list \<Rightarrow> SessionDetail
     \<Rightarrow> SessionPhoto list \<times> (string \<times> origin) list" where
  "addSession acc s = foldl (addPhoto (session_id s)) acc (photosOf s)"

text \<open>The function: the pair of \<^verbatim>\<open>photos\<close> and \<^verbatim>\<open>idMap\<close>.\<close>

definition buildChantierAggregatedPhotos ::
  "SessionDetail list \<Rightarrow> SessionPhoto list \<times> (string \<times> origin) list" where
  "buildChantierAggregatedPhotos sessions =
     (let orderedSessions = sortBy compareSessions sessions
      in foldl addSession ([], []) orderedSessions)"


text \<open>
  Vocabulary of the statements. \<open>sessionKey\<close> is the pair that the comparator compares,
  in the lexicographic order. \<open>compositeOf\<close> is the composite identifier of an origin
  photo, \<open>originPhotos\<close> the origin photos in the order of the loops. An output entry
  \<open>q\<close> comes from the origin photo \<open>x\<close>, the identifiers \<open>taken\<close> being those of the entries
  before it, when \<open>q\<close> is the photo with the two origin fields set, under the composite
  identifier if that one is not taken, and otherwise under the composite followed by the
  first counter from 2 on that gives an identifier not taken.
\<close>

definition sessionKey :: "SessionDetail \<Rightarrow> rat \<times> rat" where
  "sessionKey s = (numberOrZero (created_at s), numberOrZero (updated_at s))"

definition compositeOf :: "string \<times> SessionPhoto \<Rightarrow> string" where
  "compositeOf x = fst x @ ''__'' @ id' (snd x)"

definition originPhotos :: "SessionDetail list \<Rightarrow> (string \<times> SessionPhoto) list" where
  "originPhotos ss = concat (map (\<lambda>s. map (Pair (session_id s)) (photosOf s)) ss)"

definition aggregatedFrom :: "string set \<Rightarrow> SessionPhoto \<Rightarrow> string \<times> SessionPhoto \<Rightarrow> bool" where
  "aggregatedFrom taken q x =
     (q = (snd x)\<lparr>id' := id' q, ui_session_id := Some (fst x), ui_photo_id := Some (id' (snd x))\<rparr> \<and>
      (compositeOf x \<notin> taken \<longrightarrow> id' q = compositeOf x) \<and>
      (compositeOf x \<in> taken \<longrightarrow>
         (\<exists>k\<ge>2. id' q = suffixed (compositeOf x) k \<and>
                 suffixed (compositeOf x) k \<notin> taken \<and>
                 (\<forall>j. 2 \<le> j \<and> j < k \<longrightarrow> suffixed (compositeOf x) j \<in> taken))))"

definition entryOf :: "SessionPhoto \<Rightarrow> string \<times> origin" where
  "entryOf q = (id' q, (the (ui_session_id q), the (ui_photo_id q)))"

definition aggInv :: "(string \<times> SessionPhoto) list \<Rightarrow> SessionPhoto list \<times> (string \<times> origin) list \<Rightarrow> bool" where
  "aggInv xs acc =
     (snd acc = map entryOf (fst acc) \<and>
      distinct (map id' (fst acc)) \<and>
      length (fst acc) = length xs \<and>
      (\<forall>i<length xs. aggregatedFrom (set (take i (map id' (fst acc)))) (fst acc ! i) (xs ! i)) \<and>
      (distinct (map compositeOf xs) \<longrightarrow> map id' (fst acc) = map compositeOf xs))"

text \<open>Two inputs: one where two composites coincide, and the two sessions of the specification.\<close>

definition collidingSessions :: "SessionDetail list" where
  "collidingSessions =
     [\<lparr>session_id = ''a'', status = None, created_at = Some 1, updated_at = None,
       photos = Some [\<lparr>id' = ''b__c'', url = ''u1'', timestamp = None,
                       ui_session_id = None, ui_photo_id = None\<rparr>]\<rparr>,
      \<lparr>session_id = ''a__b'', status = None, created_at = Some 2, updated_at = None,
       photos = Some [\<lparr>id' = ''c'', url = ''u2'', timestamp = None,
                       ui_session_id = None, ui_photo_id = None\<rparr>]\<rparr>]"

definition twoSessions :: "SessionDetail list" where
  "twoSessions =
     [\<lparr>session_id = ''s1'', status = None, created_at = Some 1, updated_at = None,
       photos = Some [\<lparr>id' = ''p1'', url = ''u1'', timestamp = None,
                       ui_session_id = None, ui_photo_id = None\<rparr>]\<rparr>,
      \<lparr>session_id = ''s2'', status = None, created_at = Some 2, updated_at = None,
       photos = Some [\<lparr>id' = ''p1'', url = ''u2'', timestamp = None,
                       ui_session_id = None, ui_photo_id = None\<rparr>]\<rparr>]"

section \<open>Session detail page: merge of a patch into the local state\<close>

text \<open>
  A value of the program that comes from or goes to JSON, with \<^verbatim>\<open>undefined\<close> added; an
  object is the association list of its own properties.
\<close>

datatype json =
    JUndefined
  | JNull
  | JBool bool
  | JNum rat
  | JStr string
  | JArr "json list"
  | JObj "(string \<times> json) list"

text \<open>
  \<^verbatim>\<open>deepMerge(base, patch)\<close> for a base that is a plain object, as it is at every call
  of the page and at every recursive call (the copy \<^verbatim>\<open>[...base]\<close> made for an array base
  is not modelled). A patch that is falsy or not an object returns the base. Otherwise the
  keys of the patch are visited in order (\<open>mergeKeys\<close> for an object, \<open>mergeIndices\<close> for
  the indices of an array), and \<open>mergeValue\<close> is the value written under a key: the merge
  of the two values when both are objects that are not arrays, the value of the patch
  otherwise.
\<close>

fun deepMerge :: "(string \<times> json) list \<Rightarrow> json \<Rightarrow> (string \<times> json) list"
  and mergeKeys :: "(string \<times> json) list \<Rightarrow> (string \<times> json) list \<Rightarrow> (string \<times> json) list \<Rightarrow> (string \<times> json) list"
  and mergeIndices :: "(string \<times> json) list \<Rightarrow> nat \<Rightarrow> json list \<Rightarrow> (string \<times> json) list \<Rightarrow> (string \<times> json) list"
  and mergeValue :: "json option \<Rightarrow> json \<Rightarrow> json"
where
  "deepMerge base (JObj ps) = mergeKeys base ps base"
| "deepMerge base (JArr xs) = mergeIndices base 0 xs base"
| "deepMerge base JUndefined = base"
| "deepMerge base JNull = base"
| "deepMerge base (JBool b) = base"
| "deepMerge base (JNum n) = base"
| "deepMerge base (JStr s) = base"
| "mergeKeys base [] out = out"
| "mergeKeys base ((k, pv) # ps) out = mergeKeys base ps (AList.update k (mergeValue (map_of base k) pv) out)"
| "mergeIndices base i [] out = out"
| "mergeIndices base i (pv # xs) out = mergeIndices base (Suc i) xs (AList.update (showNat i) (mergeValue (map_of base (showNat i)) pv) out)"
| "mergeValue (Some (JObj bv)) (JObj pv) = JObj (deepMerge bv (JObj pv))"
| "mergeValue bv pv = pv"


text \<open>\<^verbatim>\<open>Object.keys(patch)\<close> with the values, for the statements.\<close>

definition patchEntries :: "json \<Rightarrow> (string \<times> json) list" where
  "patchEntries patch =
     (case patch of
        JObj ps \<Rightarrow> ps
      | JArr xs \<Rightarrow> zip (map showNat [0..<length xs]) xs
      | _ \<Rightarrow> [])"

section \<open>Requests, responses and failures\<close>

text \<open>
  A handler of a page is a function from the state of the page, and from the answers of
  the world to what it asks (the outcome of each \<^verbatim>\<open>fetch\<close>, the answer to a
  \<^verbatim>\<open>window.confirm\<close>, the clock), to the state after the handler has run to its end. The
  requests that were sent and the lines written to the console are kept in the state, so
  that a statement can speak of them. A promise that rejects, and a \<^verbatim>\<open>throw\<close>, are the
  value \<open>Throws\<close> with the message of the error.
\<close>

datatype 'a attempt = Throws string | Returns 'a

datatype httpMethod = GET | POST | PATCH | DELETE

datatype apiBase = InternalApi | WebhookApi

text \<open>
  A request is its method, the base it is resolved against (\<^verbatim>\<open>buildUrl\<close> or
  \<^verbatim>\<open>buildWebhookUrl\<close>), its path and the value given to \<^verbatim>\<open>JSON.stringify\<close> for its body.
\<close>

record request =
  api :: apiBase
  verb :: httpMethod
  path :: string
  body :: "json option"

text \<open>
  A response: \<^verbatim>\<open>res.ok\<close>, \<^verbatim>\<open>res.status\<close>, and what \<^verbatim>\<open>res.text()\<close> and
  \<^verbatim>\<open>res.json()\<close> give, the latter at the type the code reads it at.
\<close>

record 'a response =
  ok :: bool
  status :: nat
  text' :: "string attempt"
  json' :: "'a attempt"

definition hexDigitUpper :: "nat \<Rightarrow> char" where
  "hexDigitUpper d = ''0123456789ABCDEF'' ! d"

definition isUnreserved :: "char \<Rightarrow> bool" where
  "isUnreserved c =
     (c \<in> set ''ABCDEFGHIJKLMNOPQRSTUVWXYZabcdefghijklmnopqrstuvwxyz0123456789-_.!~*'()'')"

definition percentEncode :: "char \<Rightarrow> string" where
  "percentEncode c = [CHR ''%'', hexDigitUpper (of_char c div 16), hexDigitUpper (of_char c mod 16)]"

text \<open>\<^verbatim>\<open>encodeURIComponent\<close>, on the bytes of the UTF-8 text.\<close>

definition encodeURIComponent :: "string \<Rightarrow> string" where
  "encodeURIComponent s = concat (map (\<lambda>c. if isUnreserved c then [c] else percentEncode c) s)"

text \<open>\<^verbatim>\<open>s || d\<close> for strings.\<close>

definition orString :: "string \<Rightarrow> string \<Rightarrow> string" where
  "orString s d = (if s = [] then d else s)"

section \<open>Values of unknown shape\<close>

text \<open>
  Truthiness, \<^verbatim>\<open>a || b\<close>, the read \<^verbatim>\<open>x?.k\<close> of a property whose name is neither an
  index nor \<^verbatim>\<open>length\<close>, the own properties that \<^verbatim>\<open>{...x}\<close> copies, and an object
  literal that continues a copy with further properties.
\<close>

definition truthy :: "json \<Rightarrow> bool" where
  "truthy v =
     (case v of
        JUndefined \<Rightarrow> False
      | JNull \<Rightarrow> False
      | JBool b \<Rightarrow> b
      | JNum n \<Rightarrow> n \<noteq> 0
      | JStr s \<Rightarrow> s \<noteq> []
      | JArr xs \<Rightarrow> True
      | JObj es \<Rightarrow> True)"

definition orJson :: "json \<Rightarrow> json \<Rightarrow> json" where
  "orJson a b = (if truthy a then a else b)"

definition getProp :: "json \<Rightarrow> string \<Rightarrow> json" where
  "getProp v k =
     (case v of
        JObj es \<Rightarrow> (case map_of es k of Some x \<Rightarrow> x | None \<Rightarrow> JUndefined)
      | _ \<Rightarrow> JUndefined)"

definition spreadOf :: "json \<Rightarrow> (string \<times> json) list" where
  "spreadOf v =
     (case v of
        JObj es \<Rightarrow> es
      | JArr xs \<Rightarrow> zip (map showNat [0..<length xs]) xs
      | JStr s \<Rightarrow> zip (map showNat [0..<length s]) (map (\<lambda>c. JStr [c]) s)
      | _ \<Rightarrow> [])"

definition withProps :: "(string \<times> json) list \<Rightarrow> (string \<times> json) list \<Rightarrow> (string \<times> json) list" where
  "withProps es kvs = foldl (\<lambda>obj kv. AList.update (fst kv) (snd kv) obj) es kvs"

section \<open>Feedback to the user\<close>

datatype toastType = Success | Error

record Toast =
  type :: toastType
  message :: string

section \<open>Superseded session page: publication\<close>

record PhotoDraft =
  draftStatus :: string
  commentaire :: string
  annotatedPath :: "string option"
  annotatedUrl :: "string option"

record SessionPage =
  sessionId :: string
  detail :: "SessionDetail option"
  drafts :: "(string \<times> PhotoDraft) list"
  author :: string
  publishing :: bool
  toast :: "Toast option"
  sent :: "request list"
  console :: "string list"

definition orNull :: "string option \<Rightarrow> json" where
  "orNull v = (case v of None \<Rightarrow> JNull | Some s \<Rightarrow> if s = [] then JNull else JStr s)"

definition draftItem :: "(string \<times> PhotoDraft) list \<Rightarrow> SessionPhoto \<Rightarrow> json" where
  "draftItem ds p =
     (let d = (case map_of ds (SessionPhoto.id' p) of
                 Some x \<Rightarrow> x
               | None \<Rightarrow> \<lparr>draftStatus = ''a_revoir'', commentaire = [],
                           annotatedPath = None, annotatedUrl = None\<rparr>)
      in JObj [(''photo_id'', JStr (SessionPhoto.id' p)),
               (''commentaire'', JStr (commentaire d)),
               (''annotated_path'', orNull (annotatedPath d)),
               (''annotated_url'', orNull (annotatedUrl d))])"

definition sessionPublishFailed :: "SessionPage \<Rightarrow> string \<Rightarrow> SessionPage" where
  "sessionPublishFailed st msg =
     st\<lparr>SessionPage.console := SessionPage.console st @ [msg],
        SessionPage.toast := Some \<lparr>type = Error,
             message = orString msg ''Erreur lors de la publication du diagnostic.''\<rparr>\<rparr>"

text \<open>What the notification leaves on the console: something only when its \<^verbatim>\<open>fetch\<close> rejects.\<close>

definition notifyLog :: "json response attempt \<Rightarrow> string list" where
  "notifyLog outcome =
     (case outcome of
        Throws msg \<Rightarrow> [''Erreur lors de l'envoi WhatsApp:'', msg]
      | Returns res \<Rightarrow> [])"

text \<open>\<^verbatim>\<open>handlePublish\<close> of the superseded session page.\<close>

definition handlePublishSession ::
    "SessionPage \<Rightarrow> SessionDetail response attempt \<Rightarrow> json response attempt \<Rightarrow> SessionPage" where
  "handlePublishSession st pub notify =
     (case SessionPage.detail st of
        None \<Rightarrow> st
      | Some d \<Rightarrow>
          if sessionId st = [] then st
          else
            let payloadItems = map (draftItem (drafts st)) (photosOf d)
            in if payloadItems = [] then
                 st\<lparr>SessionPage.toast := Some \<lparr>type = Error,
                        message = ''Aucune photo a publier pour cette session.''\<rparr>\<rparr>
               else
                 let st1 = st\<lparr>SessionPage.publishing := True,
                              SessionPage.sent := SessionPage.sent st @
                                [\<lparr>api = InternalApi, verb = POST,
                                  path = ''/sessions/'' @ encodeURIComponent (sessionId st) @ ''/publish'',
                                  body = Some (JObj [(''author'',
                                           JStr (orString (SessionPage.author st) ''Service Technique'')),
                                          (''items'', JArr payloadItems)])\<rparr>]\<rparr>;
                     st2 =
                       (case pub of
                          Throws msg \<Rightarrow> sessionPublishFailed st1 msg
                        | Returns res \<Rightarrow>
                            if \<not> ok res then
                              (case response.text' res of
                                 Throws msg \<Rightarrow> sessionPublishFailed st1 msg
                               | Returns txt \<Rightarrow>
                                   sessionPublishFailed st1
                                     (''Erreur publication ('' @ showNat (response.status res) @
                                      '') : '' @ orString txt ''Impossible de publier''))
                            else
                              (case json' res of
                                 Throws msg \<Rightarrow> sessionPublishFailed st1 msg
                               | Returns updated \<Rightarrow>
                                   let st3 = st1\<lparr>SessionPage.detail := Some updated,
                                                 SessionPage.sent := SessionPage.sent st1 @
                                       [\<lparr>api = WebhookApi, verb = POST,
                                         path = ''/notify-session-published'',
                                         body = Some (JObj [(''session_id'', JStr (sessionId st)),
                                            (''author'',
                                             JStr (orString (SessionPage.author st)
                                                     ''Service Technique''))])\<rparr>]\<rparr>;
                                       st4 = st3\<lparr>SessionPage.console :=
                                                   SessionPage.console st3 @ notifyLog notify\<rparr>
                                   in st4\<lparr>SessionPage.toast := Some \<lparr>type = Success,
                                          message = ''Diagnostic publie et envoye a l'installateur.''\<rparr>\<rparr>))
                 in st2\<lparr>SessionPage.publishing := False\<rparr>)"

section \<open>Public report pages\<close>

text \<open>
  What a public page shows: the placeholder of a pending load, the explicit state of a
  report that is not found (with its message), or the report.
\<close>

datatype 'a view = ShowLoading | ShowNotFound string | ShowReport 'a

text \<open>
  The page of a chantier report: the slug of the URL, the three slices of state, and the
  requests sent. The effect that loads the report takes the outcome of its request and
  whether the effect was cleaned up before the outcome came.
\<close>

record ReportPage =
  slug :: string
  data' :: "json option"
  loading :: bool
  errMsg :: "string option"
  sent :: "request list"

definition loadReportFailed :: "ReportPage \<Rightarrow> bool \<Rightarrow> string \<Rightarrow> ReportPage" where
  "loadReportFailed st cancelled msg =
     (if cancelled then st
      else st\<lparr>data' := None, errMsg := Some (orString msg ''Impossible de charger le rapport.'')\<rparr>)"

definition loadReport :: "ReportPage \<Rightarrow> json response attempt \<Rightarrow> bool \<Rightarrow> ReportPage" where
  "loadReport st outcome cancelled =
     (if slug st = [] then st
      else
        let st1 = st\<lparr>loading := True, errMsg := None,
                     sent := sent st @
                       [\<lparr>api = InternalApi, verb = GET,
                         path = ''/chantiers/public/'' @ encodeURIComponent (slug st),
                         body = None\<rparr>]\<rparr>;
            st2 =
              (case outcome of
                 Throws msg \<Rightarrow> loadReportFailed st1 cancelled msg
               | Returns res \<Rightarrow>
                   if \<not> ok res then
                     loadReportFailed st1 cancelled
                       (orString (case response.text' res of Throws m \<Rightarrow> [] | Returns t \<Rightarrow> t)
                          (''Erreur '' @ showNat (response.status res)))
                   else
                     (case json' res of
                        Throws msg \<Rightarrow> loadReportFailed st1 cancelled msg
                      | Returns j \<Rightarrow> if cancelled then st1 else st1\<lparr>data' := Some j\<rparr>))
        in if cancelled then st2 else st2\<lparr>loading := False\<rparr>)"

definition renderReport :: "ReportPage \<Rightarrow> json view" where
  "renderReport st =
     (if loading st \<or> slug st = [] then ShowLoading
      else
        (case data' st of
           None \<Rightarrow>
             ShowNotFound
               (case errMsg st of
                  None \<Rightarrow> ''Le lien est invalide ou le chantier n'a pas ete publie.''
                | Some m \<Rightarrow> orString m ''Le lien est invalide ou le chantier n'a pas ete publie.'')
         | Some d \<Rightarrow> ShowReport d))"

text \<open>The page of a session report, which has no message of its own and no clean-up.\<close>

record PublicSessionPage =
  slug :: string
  session :: "json option"
  loading :: bool
  sent :: "request list"
  console :: "string list"

definition loadPublicSession :: "PublicSessionPage \<Rightarrow> json response attempt \<Rightarrow> PublicSessionPage" where
  "loadPublicSession st outcome =
     (if PublicSessionPage.slug st = [] then st
      else
        let st1 = st\<lparr>PublicSessionPage.loading := True,
                     PublicSessionPage.sent := PublicSessionPage.sent st @
                       [\<lparr>api = InternalApi, verb = GET,
                         path = ''/sessions/public/'' @ PublicSessionPage.slug st, body = None\<rparr>],
                     PublicSessionPage.console := PublicSessionPage.console st @
                       [''[PublicSession] fetch'']\<rparr>;
            st2 =
              (case outcome of
                 Throws msg \<Rightarrow>
                   st1\<lparr>PublicSessionPage.console := PublicSessionPage.console st1 @
                         [''[PublicSession] error'', msg],
                       session := None\<rparr>
               | Returns res \<Rightarrow>
                   if ok res then
                     (case json' res of
                        Throws msg \<Rightarrow>
                          st1\<lparr>PublicSessionPage.console := PublicSessionPage.console st1 @
                                [''[PublicSession] error'', msg],
                              session := None\<rparr>
                      | Returns j \<Rightarrow>
                          st1\<lparr>PublicSessionPage.console := PublicSessionPage.console st1 @
                                [''[PublicSession] data''],
                              session := Some j\<rparr>)
                   else
                     st1\<lparr>PublicSessionPage.console := PublicSessionPage.console st1 @
                           [''[PublicSession] status != 200'', showNat (response.status res)],
                         session := None\<rparr>)
        in st2\<lparr>PublicSessionPage.loading := False\<rparr>)"

definition renderPublicSession :: "PublicSessionPage \<Rightarrow> json view" where
  "renderPublicSession st =
     (if PublicSessionPage.loading st \<or> PublicSessionPage.slug st = [] then ShowLoading
      else
        (case session st of
           None \<Rightarrow> ShowNotFound ''Session introuvable''
         | Some s \<Rightarrow> ShowReport s))"

section \<open>Inbox page: deletion of a row\<close>

text \<open>
  A row of the inbox, with the fields the deletion reads, and the slices of state of the
  page that the deletion and the reload of the list write. The projection of the overview
  into rows is not part of the model: the body of the overview is read as the two lists
  of rows that the page stores.
\<close>

record ChantierAggItem =
  group_key :: string
  chantier_id :: "string option"
  session_ids :: "string list option"

record ListPage =
  unattached :: "ChantierAggItem list"
  chantiers :: "ChantierAggItem list"
  error :: "string option"
  loading :: bool
  isRefreshing :: bool
  hasLoadedOnce :: bool
  deletingKey :: "string option"
  deleteError :: "string option"
  sent :: "request list"
  console :: "string list"

text \<open>\<^verbatim>\<open>fetchOverview\<close>: the reload of the list, which catches its own failures.\<close>

definition fetchOverview ::
    "ListPage \<Rightarrow> (ChantierAggItem list \<times> ChantierAggItem list) response attempt \<Rightarrow> ListPage" where
  "fetchOverview st outcome =
     (let st1 = (if \<not> hasLoadedOnce st then st\<lparr>error := None, loading := True\<rparr>
                 else st\<lparr>error := None, isRefreshing := True\<rparr>);
          st2 = st1\<lparr>sent := sent st1 @
                  [\<lparr>api = InternalApi, verb = GET, path = ''/sav/overview'', body = None\<rparr>]\<rparr>;
          st3 =
            (case outcome of
               Throws msg \<Rightarrow>
                 st2\<lparr>console := console st2 @ [''fetch /sav/overview error'', msg],
                     error := Some ''Erreur reseau lors du chargement de l'inbox SAV.''\<rparr>
             | Returns res \<Rightarrow>
                 if \<not> ok res then
                   st2\<lparr>error := Some ''Erreur lors du chargement de l'inbox SAV.''\<rparr>
                 else
                   (case json' res of
                      Throws msg \<Rightarrow>
                        st2\<lparr>console := console st2 @ [''fetch /sav/overview error'', msg],
                            error := Some ''Erreur reseau lors du chargement de l'inbox SAV.''\<rparr>
                    | Returns rows \<Rightarrow> st2\<lparr>unattached := fst rows, chantiers := snd rows\<rparr>))
      in st3\<lparr>loading := False, isRefreshing := False, hasLoadedOnce := True\<rparr>)"

text \<open>
  The loop over the sessions of a group: each session is deleted in turn, and the first
  failure ends the loop with the message of the error that is thrown. The answer of the
  server to the deletion of a session is a function of that session.
\<close>

definition shortText :: "string attempt \<Rightarrow> string \<Rightarrow> string" where
  "shortText txt fallback =
     (case txt of
        Throws msg \<Rightarrow> fallback
      | Returns t \<Rightarrow> if t \<noteq> [] \<and> length t < 220 then t else fallback)"

fun deleteSessions ::
    "ListPage \<Rightarrow> string list \<Rightarrow> (string \<Rightarrow> json response attempt) \<Rightarrow> ListPage \<times> string option" where
  "deleteSessions st [] answer = (st, None)"
| "deleteSessions st (sid # sids) answer =
     (let st1 = st\<lparr>sent := sent st @
                  [\<lparr>api = InternalApi, verb = DELETE,
                    path = ''/sessions/'' @ encodeURIComponent sid, body = None\<rparr>]\<rparr>
      in case answer sid of
           Throws msg \<Rightarrow> (st1, Some msg)
         | Returns res \<Rightarrow>
             if \<not> ok res then
               (st1, Some (shortText (response.text' res) (''Erreur suppression session '' @ sid)))
             else deleteSessions st1 sids answer)"

definition deleteFailed :: "ListPage \<Rightarrow> string \<Rightarrow> string \<Rightarrow> ListPage" where
  "deleteFailed st what msg =
     st\<lparr>console := console st @ [what, msg],
        deleteError := Some (if msg \<noteq> [] then ''Suppression impossible: '' @ msg
                             else ''Suppression impossible.'')\<rparr>"

text \<open>
  \<^verbatim>\<open>handleDeleteRow(row, isUnattached)\<close>, with the answer of the user to
  \<^verbatim>\<open>window.confirm\<close> should the question be asked, and the outcomes of the requests.
\<close>

definition handleDeleteRow ::
    "ListPage \<Rightarrow> ChantierAggItem \<Rightarrow> bool \<Rightarrow> bool \<Rightarrow> (string \<Rightarrow> json response attempt)
       \<Rightarrow> json response attempt
       \<Rightarrow> (ChantierAggItem list \<times> ChantierAggItem list) response attempt \<Rightarrow> ListPage" where
  "handleDeleteRow st row isUnattached confirmed sessionAnswer chantierAnswer overview =
     (let st0 = st\<lparr>deleteError := None\<rparr>
      in if (case deletingKey st of None \<Rightarrow> False | Some k \<Rightarrow> k \<noteq> []) then st0
         else if isUnattached then
           (let sids = (case session_ids row of None \<Rightarrow> [] | Some xs \<Rightarrow> xs)
            in if length sids = 0 then
                 st0\<lparr>deleteError := Some ''Impossible de supprimer: aucune session detectee.''\<rparr>
               else if \<not> confirmed then st0
               else
                 let st1 = st0\<lparr>deletingKey := Some (group_key row)\<rparr>;
                     st2 = (case deleteSessions st1 sids sessionAnswer of
                              (st', None) \<Rightarrow> fetchOverview st' overview
                            | (st', Some msg) \<Rightarrow> deleteFailed st' ''delete session(s) error'' msg)
                 in st2\<lparr>deletingKey := None\<rparr>)
         else
           (let chantierId = trim (orEmpty (chantier_id row))
            in if chantierId = [] then
                 st0\<lparr>deleteError := Some ''Impossible de supprimer: chantier_id manquant.''\<rparr>
               else if \<not> confirmed then st0
               else
                 let st1 = st0\<lparr>deletingKey := Some (group_key row),
                               sent := sent st0 @
                                 [\<lparr>api = InternalApi, verb = DELETE,
                                   path = ''/chantiers/'' @ encodeURIComponent chantierId,
                                   body = None\<rparr>]\<rparr>;
                     st2 = (case chantierAnswer of
                              Throws msg \<Rightarrow> deleteFailed st1 ''delete chantier error'' msg
                            | Returns res \<Rightarrow>
                                if \<not> ok res then
                                  deleteFailed st1 ''delete chantier error''
                                    (shortText (response.text' res) ''Erreur suppression chantier'')
                                else fetchOverview st1 overview)
                 in st2\<lparr>deletingKey := None\<rparr>))"

section \<open>Session detail page: state\<close>

record NoteAsset =
  asset_id :: string
  filename :: "string option"
  asset_url :: "string option"

record SavNote =
  id' :: string
  text' :: string
  photo_ids :: "string list"
  assets :: "NoteAsset list option"
  updated_at :: "nat option"
  created_at :: "nat option"

datatype itemKind = Chantier | UnattachedSession

record ChantierMeta =
  kind :: "itemKind option"
  chantier_id :: "string option"
  session_count :: nat
  session_ids :: "string list"

text \<open>
  The slices of state that the handlers below read or write, with the key of the URL, and
  the two logs. The chantier is kept as the object the page merges patches into. The texts
  of the messages are written without their accents.
\<close>

record DetailPage =
  urlKey :: string
  loadedSessionId :: string
  detail :: "SessionDetail option"
  chantier :: "(string \<times> json) list option"
  chantierMeta :: ChantierMeta
  toast :: "Toast option"
  author :: string
  publishing :: bool
  includeMap :: "(string \<times> bool) list"
  notes' :: "SavNote list"
  activeNoteId :: "string option"
  noteText :: string
  notePhotos :: "string list"
  selectedAssetId :: "string option"
  sent :: "request list"
  console :: "string list"

definition isMultiSessionChantier :: "DetailPage \<Rightarrow> bool" where
  "isMultiSessionChantier st =
     (kind (chantierMeta st) = Some Chantier \<and> session_count (chantierMeta st) > 1)"

definition isChantierMode :: "DetailPage \<Rightarrow> bool" where
  "isChantierMode st =
     (kind (chantierMeta st) = Some Chantier \<and>
      (case chantier_id (chantierMeta st) of None \<Rightarrow> False | Some c \<Rightarrow> c \<noteq> []))"

definition effectiveSessionId :: "DetailPage \<Rightarrow> string" where
  "effectiveSessionId st = orString (loadedSessionId st) (urlKey st)"

section \<open>Session detail page: the notes\<close>

text \<open>
  The clock and the random source: \<^verbatim>\<open>Date.now()\<close> in milliseconds, and the digits of
  \<^verbatim>\<open>Math.random().toString(16).slice(2)\<close>.
\<close>

record Env =
  nowMs :: nat
  randomHex :: string

definition hexDigit :: "nat \<Rightarrow> char" where
  "hexDigit d = ''0123456789abcdef'' ! d"

fun showHex :: "nat \<Rightarrow> string" where
  "showHex n = (if n < 16 then [hexDigit n] else showHex (n div 16) @ [hexDigit (n mod 16)])"

declare showHex.simps [simp del]

definition uid :: "string \<Rightarrow> Env \<Rightarrow> string" where
  "uid prefix env = prefix @ ''_'' @ randomHex env @ ''_'' @ showHex (nowMs env)"

text \<open>\<^verbatim>\<open>Array.from(new Set(xs))\<close>: the elements in the order of their first occurrence.\<close>

definition arrayFromSet :: "'a list \<Rightarrow> 'a list" where
  "arrayFromSet xs = rev (remdups (rev xs))"

definition assetsOf :: "SavNote \<Rightarrow> NoteAsset list" where
  "assetsOf n = (case assets n of None \<Rightarrow> [] | Some as \<Rightarrow> as)"

text \<open>
  \<^verbatim>\<open>upsertNote\<close>. A blank text sets the error toast and returns. Otherwise, with an
  active note identifier, the note of that identifier is rewritten, or created under that
  identifier when no note has it; without one, a note is created under a new \<^verbatim>\<open>uid\<close>.
\<close>

definition upsertNote :: "Env \<Rightarrow> DetailPage \<Rightarrow> DetailPage" where
  "upsertNote env st =
     (let cleanedText = trim (noteText st)
      in if cleanedText = [] then
           st\<lparr>toast := Some \<lparr>type = Error,
                  message = ''Ecris au moins une recommandation SAV dans la note.''\<rparr>\<rparr>
         else
           let cleanedPhotos = arrayFromSet (filter (\<lambda>p. p \<noteq> []) (notePhotos st));
               now = nowMs env div 1000
           in case (case activeNoteId st of None \<Rightarrow> None | Some a \<Rightarrow> if a = [] then None else Some a) of
                Some active \<Rightarrow>
                  if \<not> list_ex (\<lambda>n. SavNote.id' n = active) (notes' st) then
                    st\<lparr>notes' := \<lparr>id' = active, text' = cleanedText, photo_ids = cleanedPhotos,
                                  assets = Some [], updated_at = Some now, created_at = Some now\<rparr>
                                # notes' st,
                       toast := Some \<lparr>type = Success, message = ''Note SAV creee.''\<rparr>\<rparr>
                  else
                    st\<lparr>notes' := map (\<lambda>n. if SavNote.id' n = active
                                         then n\<lparr>text' := cleanedText, photo_ids := cleanedPhotos,
                                                updated_at := Some now\<rparr>
                                         else n) (notes' st),
                       toast := Some \<lparr>type = Success, message = ''Note SAV mise a jour.''\<rparr>\<rparr>
              | None \<Rightarrow>
                  let newId = uid ''note'' env
                  in st\<lparr>notes' := \<lparr>id' = newId, text' = cleanedText, photo_ids = cleanedPhotos,
                                    assets = Some [], updated_at = Some now, created_at = Some now\<rparr>
                                  # notes' st,
                        activeNoteId := Some newId,
                        selectedAssetId := None,
                        toast := Some \<lparr>type = Success, message = ''Note SAV creee.''\<rparr>\<rparr>)"

text \<open>The identifier under which \<^verbatim>\<open>upsertNote\<close> writes.\<close>

definition upsertTarget :: "Env \<Rightarrow> DetailPage \<Rightarrow> string" where
  "upsertTarget env st =
     (case activeNoteId st of
        None \<Rightarrow> uid ''note'' env
      | Some a \<Rightarrow> if a = [] then uid ''note'' env else a)"

text \<open>
  \<^verbatim>\<open>deleteNoteAsset(noteId, assetId)\<close>, with the outcome of its \<^verbatim>\<open>fetch\<close>. The
  request is sent as soon as the page has a session; the function asks nothing of the user.
\<close>

definition deleteAssetFailed :: "DetailPage \<Rightarrow> string \<Rightarrow> DetailPage" where
  "deleteAssetFailed st msg =
     st\<lparr>console := console st @ [msg],
        toast := Some \<lparr>type = Error, message = orString msg ''Erreur suppression visuel.''\<rparr>\<rparr>"

definition deleteNoteAsset ::
    "DetailPage \<Rightarrow> string \<Rightarrow> string \<Rightarrow> json response attempt \<Rightarrow> DetailPage" where
  "deleteNoteAsset st noteId assetId outcome =
     (if effectiveSessionId st = [] then st
      else
        let st1 = st\<lparr>sent := sent st @
                     [\<lparr>api = InternalApi, verb = DELETE,
                       path = ''/sessions/'' @ encodeURIComponent (effectiveSessionId st) @
                              ''/notes/'' @ encodeURIComponent noteId @
                              ''/assets/'' @ encodeURIComponent assetId,
                       body = None\<rparr>]\<rparr>
        in case outcome of
             Throws msg \<Rightarrow> deleteAssetFailed st1 msg
           | Returns res \<Rightarrow>
               if \<not> ok res then
                 (case response.text' res of
                    Throws msg \<Rightarrow> deleteAssetFailed st1 msg
                  | Returns txt \<Rightarrow>
                      deleteAssetFailed st1
                        (''Suppression visuel ('' @ showNat (status res) @ '') : '' @
                         orString txt ''Erreur''))
               else
                 st1\<lparr>notes' := map (\<lambda>n. if SavNote.id' n \<noteq> noteId then n
                                       else n\<lparr>assets := Some (filter (\<lambda>a. asset_id a \<noteq> assetId)
                                                                 (assetsOf n))\<rparr>) (notes' st1),
                     selectedAssetId :=
                       (if selectedAssetId st1 \<noteq> Some assetId then selectedAssetId st1
                        else
                          (case filter (\<lambda>a. asset_id a \<noteq> assetId)
                                  (case find (\<lambda>x. SavNote.id' x = noteId) (notes' st1) of
                                     None \<Rightarrow> []
                                   | Some n \<Rightarrow> assetsOf n) of
                             [] \<Rightarrow> None
                           | a # _ \<Rightarrow> if asset_id a = [] then None else Some (asset_id a))),
                     toast := Some \<lparr>type = Success, message = ''Visuel supprime.''\<rparr>\<rparr>)"

text \<open>
  The click on the cross of a visual: the handler stops the propagation of the event and
  calls \<^verbatim>\<open>deleteNoteAsset\<close> for the active note, if there is one.
\<close>

definition onClickDeleteAsset :: "DetailPage \<Rightarrow> string \<Rightarrow> json response attempt \<Rightarrow> DetailPage" where
  "onClickDeleteAsset st assetId outcome =
     (case activeNoteId st of
        None \<Rightarrow> st
      | Some a \<Rightarrow> if a = [] then st else deleteNoteAsset st a assetId outcome)"

section \<open>Session detail page: publication\<close>

text \<open>\<^verbatim>\<open>"PUBLI\<close>E acute\<^verbatim>\<open>"\<close>, in UTF-8.\<close>

definition statusPublie :: string where
  "statusPublie = ''PUBLI'' @ [CHR 0xC3, CHR 0x89]"

text \<open>
  The update of the chantier after its publication (the function given to
  \<^verbatim>\<open>setChantier\<close>): the patch takes from the response what the response has, else what
  the chantier had, and is merged into the chantier, or stands for it when there was none.
  \<open>publicationProps\<close> is the object literal under the key \<^verbatim>\<open>publication\<close> of the patch.
\<close>

definition publicationProps :: "(string \<times> json) list option \<Rightarrow> json \<Rightarrow> (string \<times> json) list" where
  "publicationProps prev data =
     (let prevJ = (case prev of None \<Rightarrow> JNull | Some p \<Rightarrow> JObj p);
          pub = getProp prevJ ''publication''
      in withProps (spreadOf (orJson pub (JObj [])))
           [(''report_public_slug'',
             orJson (getProp data ''public_slug'') (getProp pub ''report_public_slug'')),
            (''report_public_url'',
             orJson (getProp data ''public_url'') (getProp pub ''report_public_url'')),
            (''last_published_at'',
             orJson (getProp data ''last_published_at'') (getProp pub ''last_published_at'')),
            (''last_published_by'',
             orJson (getProp data ''last_published_by'') (getProp pub ''last_published_by''))])"

definition publicationPatch :: "(string \<times> json) list option \<Rightarrow> json \<Rightarrow> json" where
  "publicationPatch prev data =
     (let prevJ = (case prev of None \<Rightarrow> JNull | Some p \<Rightarrow> JObj p)
      in JObj
           [(''publication'', JObj (publicationProps prev data)),
            (''status'', orJson (getProp data ''status'') (getProp prevJ ''status'')),
            (''updated_at'', orJson (getProp data ''updated_at'') (getProp prevJ ''updated_at''))])"

definition publishedChantier :: "(string \<times> json) list option \<Rightarrow> json \<Rightarrow> (string \<times> json) list" where
  "publishedChantier prev data =
     (case prev of
        Some p \<Rightarrow> deepMerge p (publicationPatch prev data)
      | None \<Rightarrow> patchEntries (publicationPatch prev data))"

text \<open>
  The notification of a published chantier: its own \<^verbatim>\<open>try\<close>, whose \<^verbatim>\<open>catch\<close> writes
  to the console; a response that is not \<^verbatim>\<open>ok\<close> is a warning on the console. Nothing
  else is done with the outcome, so the notification is the request that is sent and the
  lines that the outcome leaves on the console.
\<close>

definition notifyChantierLog :: "json response attempt \<Rightarrow> string list" where
  "notifyChantierLog outcome =
     (case outcome of
        Throws msg \<Rightarrow> [''Erreur envoi WhatsApp chantier:'', msg]
      | Returns res \<Rightarrow>
          if \<not> ok res then
            (case response.text' res of
               Throws msg \<Rightarrow> [''Erreur envoi WhatsApp chantier:'', msg]
             | Returns txt \<Rightarrow>
                 [''Notify WhatsApp chantier failed:'', showNat (response.status res), txt])
          else [])"

definition notifyChantierPublished ::
    "DetailPage \<Rightarrow> string \<Rightarrow> json \<Rightarrow> json response attempt \<Rightarrow> DetailPage" where
  "notifyChantierPublished st cid data outcome =
     st\<lparr>sent := sent st @
           [\<lparr>api = WebhookApi, verb = POST, path = ''/notify-chantier-published'',
             body = Some (JObj [(''chantier_id'', JStr cid),
                                (''author'', JStr (orString (author st) ''Service Technique'')),
                                (''public_url'', getProp data ''public_url'')])\<rparr>],
        console := console st @ notifyChantierLog outcome\<rparr>"

definition publishChantierFailed :: "DetailPage \<Rightarrow> string \<Rightarrow> DetailPage" where
  "publishChantierFailed st msg =
     st\<lparr>console := console st @ [msg],
        toast := Some \<lparr>type = Error,
                       message = orString msg ''Erreur lors de la publication chantier.''\<rparr>\<rparr>"

definition publishChantier ::
    "DetailPage \<Rightarrow> string \<Rightarrow> json response attempt \<Rightarrow> json response attempt \<Rightarrow> DetailPage" where
  "publishChantier st cid pub notify =
     (let st1 = st\<lparr>publishing := True,
                   sent := sent st @
                     [\<lparr>api = InternalApi, verb = POST,
                       path = ''/chantiers/'' @ encodeURIComponent cid @ ''/publish'',
                       body = Some (JObj [(''author'',
                                           JStr (orString (author st) ''Service Technique''))])\<rparr>]\<rparr>;
          st2 =
            (case pub of
               Throws msg \<Rightarrow> publishChantierFailed st1 msg
             | Returns res \<Rightarrow>
                 if \<not> ok res then
                   (case response.text' res of
                      Throws msg \<Rightarrow> publishChantierFailed st1 msg
                    | Returns txt \<Rightarrow>
                        publishChantierFailed st1
                          (''Erreur publication chantier ('' @ showNat (response.status res) @
                           '') : '' @ orString txt ''Impossible de publier''))
                 else
                   (case json' res of
                      Throws msg \<Rightarrow> publishChantierFailed st1 msg
                    | Returns data \<Rightarrow>
                        let st3 = st1\<lparr>chantier := Some (publishedChantier (chantier st1) data),
                                      detail := map_option
                                        (\<lambda>d. d\<lparr>SessionDetail.status := Some statusPublie\<rparr>)
                                        (detail st1)\<rparr>;
                            st4 = notifyChantierPublished st3 cid data notify
                        in st4\<lparr>toast := Some \<lparr>type = Success,
                                               message = ''Rapport chantier publie.''\<rparr>\<rparr>))
      in st2\<lparr>publishing := False\<rparr>)"

text \<open>The notification of a published session: only a rejected \<^verbatim>\<open>fetch\<close> is looked at.\<close>

definition notifySessionLog :: "json response attempt \<Rightarrow> string list" where
  "notifySessionLog outcome =
     (case outcome of
        Throws msg \<Rightarrow> [''Erreur envoi WhatsApp:'', msg]
      | Returns res \<Rightarrow> [])"

definition notifySessionPublished ::
    "DetailPage \<Rightarrow> string \<Rightarrow> json response attempt \<Rightarrow> DetailPage" where
  "notifySessionPublished st sid outcome =
     st\<lparr>sent := sent st @
           [\<lparr>api = WebhookApi, verb = POST, path = ''/notify-session-published'',
             body = Some (JObj [(''session_id'', JStr sid),
                                (''author'', JStr (orString (author st) ''Service Technique''))])\<rparr>],
        console := console st @ notifySessionLog outcome\<rparr>"

definition publishSessionFailed :: "DetailPage \<Rightarrow> string \<Rightarrow> DetailPage" where
  "publishSessionFailed st msg =
     st\<lparr>console := console st @ [msg],
        toast := Some \<lparr>type = Error, message = orString msg ''Erreur lors de la publication.''\<rparr>\<rparr>"

definition publishItem :: "SessionPhoto \<Rightarrow> json" where
  "publishItem p =
     JObj [(''photo_id'',
            JStr (case ui_photo_id p of
                    None \<Rightarrow> SessionPhoto.id' p
                  | Some orig \<Rightarrow> orString orig (SessionPhoto.id' p))),
           (''commentaire'', JStr []),
           (''annotated_path'', JNull),
           (''annotated_url'', JNull)]"

definition publishSession ::
    "DetailPage \<Rightarrow> SessionPhoto list \<Rightarrow> SessionDetail response attempt \<Rightarrow> json response attempt
       \<Rightarrow> DetailPage" where
  "publishSession st included pub notify =
     (let sid = effectiveSessionId st;
          st1 = st\<lparr>publishing := True,
                   sent := sent st @
                     [\<lparr>api = InternalApi, verb = POST,
                       path = ''/sessions/'' @ encodeURIComponent sid @ ''/publish'',
                       body = Some (JObj [(''author'',
                                           JStr (orString (author st) ''Service Technique'')),
                                          (''items'', JArr (map publishItem included))])\<rparr>]\<rparr>;
          st2 =
            (case pub of
               Throws msg \<Rightarrow> publishSessionFailed st1 msg
             | Returns res \<Rightarrow>
                 if \<not> ok res then
                   (case response.text' res of
                      Throws msg \<Rightarrow> publishSessionFailed st1 msg
                    | Returns txt \<Rightarrow>
                        publishSessionFailed st1
                          (''Erreur publication ('' @ showNat (response.status res) @ '') : '' @
                           orString txt ''Impossible de publier''))
                 else
                   (case json' res of
                      Throws msg \<Rightarrow> publishSessionFailed st1 msg
                    | Returns updated \<Rightarrow>
                        let st3 = notifySessionPublished (st1\<lparr>detail := Some updated\<rparr>) sid notify
                        in st3\<lparr>toast := Some \<lparr>type = Success, message = ''Rapport publie.''\<rparr>\<rparr>))
      in st2\<lparr>publishing := False\<rparr>)"

text \<open>
  \<^verbatim>\<open>handlePublish\<close> of the detail page, with the outcomes of the requests it may send:
  the publication of the chantier, the publication of the session, the notification.
\<close>

definition handlePublish ::
    "DetailPage \<Rightarrow> json response attempt \<Rightarrow> SessionDetail response attempt \<Rightarrow> json response attempt
       \<Rightarrow> DetailPage" where
  "handlePublish st pubChantier pubSession notify =
     (case detail st of
        None \<Rightarrow> st
      | Some d \<Rightarrow>
          if isChantierMode st \<and>
             (case chantier_id (chantierMeta st) of None \<Rightarrow> False | Some c \<Rightarrow> c \<noteq> [])
          then publishChantier st (the (chantier_id (chantierMeta st))) pubChantier notify
          else if isMultiSessionChantier st then
            st\<lparr>toast := Some \<lparr>type = Error,
                   message = ''Chantier multi-sessions : publication non supportee pour l'instant. (On affiche bien toutes les photos, mais le rapport reste lie a une session.)''\<rparr>\<rparr>
          else if effectiveSessionId st = [] then st
          else
            let included = filter (\<lambda>p. map_of (includeMap st) (SessionPhoto.id' p) \<noteq> Some False)
                             (photosOf d)
            in if included = [] then
                 st\<lparr>toast := Some \<lparr>type = Error,
                        message = ''Aucune photo selectionnee pour le rapport.''\<rparr>\<rparr>
               else publishSession st included pubSession notify)"

text \<open>
  The chantier of the page as the page reads it (\<^verbatim>\<open>chantier?.publication?.report_public_url\<close>
  and the like): \<^verbatim>\<open>null\<close> as long as none is loaded.
\<close>

definition chantierJson :: "DetailPage \<Rightarrow> json" where
  "chantierJson st = (case chantier st of None \<Rightarrow> JNull | Some c \<Rightarrow> JObj c)"

section \<open>Example states\<close>

text \<open>States on which the statements below are evaluated.\<close>

definition photoP1 :: SessionPhoto where
  "photoP1 = \<lparr>SessionPhoto.id' = ''p1'', url = ''https://ik.example/p1.jpg'', timestamp = None,
              ui_session_id = None, ui_photo_id = None\<rparr>"

definition sessionS1 :: SessionDetail where
  "sessionS1 = \<lparr>session_id = ''S1'', SessionDetail.status = Some ''NEW'',
                SessionDetail.created_at = Some 1, SessionDetail.updated_at = None, photos = Some [photoP1]\<rparr>"

definition emptyPage :: DetailPage where
  "emptyPage =
     \<lparr>urlKey = ''S1'', loadedSessionId = ''S1'', detail = None, chantier = None,
      chantierMeta = \<lparr>kind = None, chantier_id = None, session_count = 0, session_ids = []\<rparr>,
      toast = None, author = ''Xavier PERGE'', publishing = False, includeMap = [],
      notes' = [], activeNoteId = None, noteText = [], notePhotos = [],
      selectedAssetId = None, sent = [], console = []\<rparr>"

definition sessionPage :: DetailPage where
  "sessionPage =
     emptyPage\<lparr>detail := Some sessionS1,
               chantierMeta := \<lparr>kind = Some UnattachedSession, chantier_id = None,
                                session_count = 1, session_ids = [''S1'']\<rparr>\<rparr>"

definition chantierPage :: DetailPage where
  "chantierPage =
     emptyPage\<lparr>detail := Some sessionS1,
               chantier := Some [(''chantier_id'', JStr ''CH1''), (''status'', JStr ''NEW'')],
               chantierMeta := \<lparr>kind = Some Chantier, chantier_id = Some ''CH1'',
                                session_count = 1, session_ids = [''S1'']\<rparr>\<rparr>"

definition publishedBefore :: DetailPage where
  "publishedBefore =
     chantierPage\<lparr>chantier :=
       Some [(''chantier_id'', JStr ''CH1''), (''status'', JStr ''NEW''),
             (''publication'', JObj [(''report_public_url'', JStr ''https://rapports.example/r/old''),
                                     (''last_published_by'', JStr ''Xavier PERGE'')])]\<rparr>"

definition oldSessionPage :: SessionPage where
  "oldSessionPage =
     \<lparr>sessionId = ''S1'', SessionPage.detail = Some sessionS1, drafts = [],
      SessionPage.author = ''Xavier PERGE'', SessionPage.publishing = False,
      SessionPage.toast = None, SessionPage.sent = [], SessionPage.console = []\<rparr>"

definition notedPage :: DetailPage where
  "notedPage =
     emptyPage\<lparr>notes' := [\<lparr>id' = ''n1'', text' = ''Ancien texte'', photo_ids = [],
                            assets = Some [\<lparr>asset_id = ''a1'', filename = None, asset_url = None\<rparr>],
                            updated_at = Some 1, created_at = Some 1\<rparr>],
               activeNoteId := Some ''n1''\<rparr>"

definition okJson :: "json \<Rightarrow> json response" where
  "okJson v = \<lparr>ok = True, status = 200, text' = Returns [], json' = Returns v\<rparr>"

definition okSession :: "SessionDetail \<Rightarrow> SessionDetail response" where
  "okSession d = \<lparr>ok = True, status = 200, text' = Returns [], json' = Returns d\<rparr>"

definition orphanRow :: ChantierAggItem where
  "orphanRow = \<lparr>group_key = ''S1'', ChantierAggItem.chantier_id = None,
                ChantierAggItem.session_ids = Some [''S1'']\<rparr>"

definition inboxPage :: ListPage where
  "inboxPage =
     \<lparr>unattached = [orphanRow], chantiers = [], error = None, ListPage.loading = False,
      isRefreshing = False, hasLoadedOnce = True, deletingKey = None,
      deleteError = Some ''Suppression impossible.'', ListPage.sent = [], ListPage.console = []\<rparr>"

definition notFound404 :: "json response" where
  "notFound404 = \<lparr>ok = False, status = 404, text' = Returns [], json' = Throws ''no body''\<rparr>"

definition reportPage :: "string \<Rightarrow> ReportPage" where
  "reportPage s = \<lparr>ReportPage.slug = s, data' = None, ReportPage.loading = True, errMsg = None,
                   ReportPage.sent = []\<rparr>"

definition publicSessionPage :: "string \<Rightarrow> PublicSessionPage" where
  "publicSessionPage s = \<lparr>PublicSessionPage.slug = s, session = None,
                          PublicSessionPage.loading = True, PublicSessionPage.sent = [],
                          PublicSessionPage.console = []\<rparr>"

section \<open>Properties\<close>


lemma trim_Nil: "trim [] = []"
  by (simp add: trim_def trimStart_def)

lemmas ws_simps = isWhiteSpace_def isWhiteSpace2_def isWhiteSpace3_def trimStart_def trim_def

subsection \<open>Visibility of a step group\<close>







subsection \<open>White space and digits\<close>




lemma skipWhiteSpace_split:
  "\<exists>pre. s = pre @ skipWhiteSpace s \<and> skipWhiteSpace pre = []"
proof (induction s rule: skipWhiteSpace.induct)
  case (1 a b c r)
  show ?case
  proof (cases "isWhiteSpace a")
    case True
    from 1(1) [OF True] obtain pre where
      p: "b # c # r = pre @ skipWhiteSpace (b # c # r)" "skipWhiteSpace pre = []" by blast
    have "skipWhiteSpace (a # pre) = []"
      using True p(2) by (cases "a # pre" rule: skipWhiteSpace.cases) auto
    moreover have "a # b # c # r = (a # pre) @ skipWhiteSpace (a # b # c # r)"
      using True p(1) by simp
    ultimately show ?thesis by blast
  next
    case False
    show ?thesis
    proof (cases "isWhiteSpace2 a b")
      case True
      from 1(2) [OF False True] obtain pre where
        p: "c # r = pre @ skipWhiteSpace (c # r)" "skipWhiteSpace pre = []" by blast
      have "skipWhiteSpace (a # b # pre) = []"
        using True False p(2) by (cases "a # b # pre" rule: skipWhiteSpace.cases) auto
      moreover have "a # b # c # r = (a # b # pre) @ skipWhiteSpace (a # b # c # r)"
        using True False p(1) by simp
      ultimately show ?thesis by blast
    next
      case two: False
      show ?thesis
      proof (cases "isWhiteSpace3 a b c")
        case True
        from 1(3) [OF False two True] obtain pre where
          p: "r = pre @ skipWhiteSpace r" "skipWhiteSpace pre = []" by blast
        have "skipWhiteSpace (a # b # c # pre) = []"
          using True False two p(2) by simp
        moreover have "a # b # c # r = (a # b # c # pre) @ skipWhiteSpace (a # b # c # r)"
          using True False two p(1) by simp
        ultimately show ?thesis by blast
      next
        case False
        then have "a # b # c # r = [] @ skipWhiteSpace (a # b # c # r) \<and> skipWhiteSpace [] = []"
          using \<open>\<not> isWhiteSpace a\<close> two by simp
        then show ?thesis by blast
      qed
    qed
  qed
next
  case (2 a b)
  have "[a, b] = [a, b] @ skipWhiteSpace [a, b] \<and> skipWhiteSpace [a, b] = []
      \<or> [a, b] = [a] @ skipWhiteSpace [a, b] \<and> skipWhiteSpace [a] = []
      \<or> [a, b] = [] @ skipWhiteSpace [a, b] \<and> skipWhiteSpace [] = []"
    by auto
  then show ?case by blast
next
  case (3 a)
  have "[a] = [a] @ skipWhiteSpace [a] \<and> skipWhiteSpace [a] = []
      \<or> [a] = [] @ skipWhiteSpace [a] \<and> skipWhiteSpace [] = []"
    by auto
  then show ?case by blast
next
  case 4
  then show ?case by simp
qed

subsection \<open>Rounding to a double\<close>










subsection \<open>Visibility of an intro field\<close>






lemma matchGeRule_Some:
  assumes "matchGeRule r = Some ds"
  shows "\<exists>ws. r = ''>='' @ ws @ ds \<and> trimStart ws = [] \<and> ds \<noteq> [] \<and> list_all isDigit ds"
proof -
  from assms obtain rest where r: "r = ''>='' @ rest"
    and d: "skipWhiteSpace rest = ds" and n: "ds \<noteq> []" and a: "list_all isDigit ds"
    by (auto simp: matchGeRule_def Let_def split: list.splits if_splits)
  from skipWhiteSpace_split [of rest] obtain pre where
    "rest = pre @ skipWhiteSpace rest" "skipWhiteSpace pre = []" by blast
  then have "r = ''>='' @ pre @ ds \<and> trimStart pre = []"
    using r d by (simp add: trimStart_def)
  then show ?thesis using n a by blast
qed


text \<open>
  Claim C10. For an intro field whose rule is present but is not of the form \<^verbatim>\<open>>=N\<close>,
  \<open>shouldShowField\<close> is true whenever the source field has a value that is not blank and
  that maps or parses to a number: a rule that is not recognised shows the field.
\<close>

theorem shouldShowField_unrecognized_rule:
  assumes sh: "IntroField.showIf fld = Some sh"
    and nform: "\<not> (\<exists>ws ds. rule sh = ''>='' @ ws @ ds \<and> trimStart ws = [] \<and> ds \<noteq> [] \<and>
                    list_all isDigit ds)"
    and v: "map_of ivData (FieldShowIf.sourceField sh) = Some v" "trim v \<noteq> []"
    and n: "numericOf allIntro (FieldShowIf.sourceField sh) v = Some n"
  shows "shouldShowField fld ivData allIntro"
proof -
  have m: "matchGeRule (rule sh) = None"
    using nform matchGeRule_Some [of "rule sh"] by (cases "matchGeRule (rule sh)") auto
  have "v \<noteq> []" using v(2) by (auto simp: trim_Nil)
  then show ?thesis
    using v n by (simp add: shouldShowField_def sh m)
qed

subsection \<open>Evaluation of the visibility rules\<close>

lemmas parse_simps = parseFloat_def takeSign_def ws_simps
  isDigit_def digitVal_def digitsVal_def exponentPart_def Let_def

lemmas double_simps = toDouble_def floorLog2_def bitLength.simps roundHalfEven_def scale2_def Let_def


lemma parseFloat_Deux: "parseFloat ''Deux'' = None"
  by (simp add: parse_simps)


lemma toDouble_7: "toDouble False 7 1 = Num 7"
  by (simp add: double_simps)





lemma parseFloat_nbsp_1: "parseFloat ([CHR 0xC2, CHR 0xA0] @ ''1'') = Some (Num 1)"
proof -
  have "parseFloat ([CHR 0xC2, CHR 0xA0] @ ''1'') = Some (toDouble False 1 1)"
    by (simp add: parse_simps)
  also have "toDouble False 1 1 = Num 1" by (simp add: double_simps)
  finally show ?thesis .
qed

lemma parseFloat_7: "parseFloat ''7'' = Some (Num 7)"
proof -
  have "parseFloat ''7'' = Some (toDouble False 7 1)" by (simp add: parse_simps)
  then show ?thesis by (simp only: toDouble_7)
qed

lemma trim_values:
  "trim ''Deux'' = ''Deux''"
  "trim ''1.5'' = ''1.5''"
  "trim ''7'' = ''7''"
  "trim ([CHR 0xC2, CHR 0xA0] @ ''1'') = ''1''"
  "trim ''9007199254740992'' = ''9007199254740992''"
  by (simp_all add: ws_simps)



theorem shouldShowField_unrecognized_rule_witness:
  "shouldShowField
     \<lparr>key = ''nb_zones'', IntroField.label = ''Zones'', IntroField.type = ''text'', options = None, mapTo = None,
      IntroField.showIf = Some \<lparr>FieldShowIf.sourceField = ''circuits'', rule = ''<=2''\<rparr>\<rparr>
     [(''circuits'', ''7'')] []"
proof -
  let ?sh = "\<lparr>FieldShowIf.sourceField = ''circuits'', rule = ''<=2''\<rparr>"
  let ?f = "\<lparr>key = ''nb_zones'', IntroField.label = ''Zones'', IntroField.type = ''text'', options = None, mapTo = None,
      IntroField.showIf = Some ?sh\<rparr>"
  have a: "IntroField.showIf ?f = Some ?sh" by simp
  have b: "\<not> (\<exists>ws ds. rule ?sh = ''>='' @ ws @ ds \<and> trimStart ws = [] \<and> ds \<noteq> [] \<and>
                    list_all isDigit ds)" by simp
  have c: "map_of [(''circuits'', ''7'')] (FieldShowIf.sourceField ?sh) = Some ''7''" by simp
  have d: "trim ''7'' \<noteq> []" by (simp add: trim_values)
  have e: "numericOf [] (FieldShowIf.sourceField ?sh) ''7'' = Some (Num 7)"
    by (simp add: numericOf_def parseFloat_7)
  show ?thesis
    using shouldShowField_unrecognized_rule [OF a b c d e] .
qed
subsection \<open>Evaluation of the examples\<close>

lemmas page_simps = emptyPage_def sessionPage_def chantierPage_def oldSessionPage_def notedPage_def
  sessionS1_def photoP1_def okJson_def okSession_def

lemmas trim_simps = trim_def trimStart_def isWhiteSpace_def isWhiteSpace2_def isWhiteSpace3_def

subsection \<open>Aggregation of the photos of a chantier\<close>

lemma freshId_same: "map_of idMap finalId = None \<Longrightarrow> freshId idMap composite k finalId = finalId"
  by (subst freshId.simps) simp

lemma freshId_fresh: "map_of idMap (freshId idMap composite k finalId) = None"
proof (induction idMap composite k finalId rule: freshId.induct)
  case (1 idMap composite k finalId)
  show ?case
  proof (cases "map_of idMap finalId \<noteq> None")
    case True
    then have "freshId idMap composite k finalId = freshId idMap composite (k + 1) (suffixed composite k)"
      by (subst freshId.simps) (simp del: map_of_eq_None_iff)
    with "1.IH" [OF True] show ?thesis by simp
  next
    case False
    then have n: "map_of idMap finalId = None" by blast
    then have "freshId idMap composite k finalId = finalId"
      by (rule freshId_same)
    with n show ?thesis by (simp only:)
  qed
qed

lemma freshId_form:
  "freshId idMap composite k finalId = finalId \<or>
   (\<exists>j\<ge>k. freshId idMap composite k finalId = suffixed composite j)"
proof (induction idMap composite k finalId rule: freshId.induct)
  case (1 idMap composite k finalId)
  show ?case
  proof (cases "map_of idMap finalId \<noteq> None")
    case True
    then have e: "freshId idMap composite k finalId = freshId idMap composite (k + 1) (suffixed composite k)"
      by (subst freshId.simps) (simp del: map_of_eq_None_iff)
    from "1.IH" [OF True]
    have "freshId idMap composite (k + 1) (suffixed composite k) = suffixed composite k \<or>
      (\<exists>j\<ge>k + 1. freshId idMap composite (k + 1) (suffixed composite k) = suffixed composite j)" .
    then show ?thesis unfolding e by (metis le_refl add_leD1)
  next
    case False
    then show ?thesis by (subst freshId.simps) simp
  qed
qed

lemma freshId_first_free:
  "map_of idMap finalId \<noteq> None \<Longrightarrow>
   \<exists>j\<ge>k. freshId idMap composite k finalId = suffixed composite j \<and>
          map_of idMap (suffixed composite j) = None \<and>
          (\<forall>i. k \<le> i \<and> i < j \<longrightarrow> map_of idMap (suffixed composite i) \<noteq> None)"
proof (induction idMap composite k finalId rule: freshId.induct)
  case (1 idMap composite k finalId)
  have e: "freshId idMap composite k finalId = freshId idMap composite (k + 1) (suffixed composite k)"
    using "1.prems" by (subst freshId.simps) (simp del: map_of_eq_None_iff)
  show ?case
  proof (cases "map_of idMap (suffixed composite k) = None")
    case True
    then have "freshId idMap composite (k + 1) (suffixed composite k) = suffixed composite k"
      by (rule freshId_same)
    then have "freshId idMap composite k finalId = suffixed composite k"
      using e by simp
    moreover have "\<forall>i. k \<le> i \<and> i < k \<longrightarrow> map_of idMap (suffixed composite i) \<noteq> None"
      by auto
    ultimately show ?thesis using True by blast
  next
    case False
    from "1.IH" [OF "1.prems" False] obtain j where j: "k + 1 \<le> j"
      "freshId idMap composite (k + 1) (suffixed composite k) = suffixed composite j"
      "map_of idMap (suffixed composite j) = None"
      "\<forall>i. k + 1 \<le> i \<and> i < j \<longrightarrow> map_of idMap (suffixed composite i) \<noteq> None"
      by blast
    have "map_of idMap (suffixed composite i) \<noteq> None" if "k \<le> i \<and> i < j" for i
    proof (cases "i = k")
      case True
      then show ?thesis using False by simp
    next
      case ne: False
      then have "k + 1 \<le> i \<and> i < j" using that by simp
      then show ?thesis using j(4) by blast
    qed
    then have "k \<le> j \<and> freshId idMap composite k finalId = suffixed composite j \<and>
          map_of idMap (suffixed composite j) = None \<and>
          (\<forall>i. k \<le> i \<and> i < j \<longrightarrow> map_of idMap (suffixed composite i) \<noteq> None)"
      using j(1,2,3) e by simp
    then show ?thesis by blast
  qed
qed

lemma update_fresh: "map_of al k = None \<Longrightarrow> AList.update k v al = al @ [(k, v)]"
  by (induction al) (auto split: if_splits)

lemma foldl_addSession: "foldl addSession acc ss = foldl (\<lambda>a x. addPhoto (fst x) a (snd x)) acc (originPhotos ss)"
proof (induction ss arbitrary: acc)
  case Nil
  then show ?case by (simp add: originPhotos_def)
next
  case (Cons s ss)
  have "foldl (\<lambda>a x. addPhoto (fst x) a (snd x)) acc (map (Pair (session_id s)) (photosOf s))
          = addSession acc s"
    by (simp add: addSession_def foldl_map)
  then show ?case using Cons.IH by (simp add: originPhotos_def)
qed

lemma compareSessions_le: "(compareSessions a b \<le> 0) = (sessionKey a \<le> sessionKey b)"
  by (auto simp: compareSessions_def sessionKey_def Let_def)

lemma insortBy_insort_key: "insortBy compareSessions x ys = insort_key sessionKey x ys"
  by (induction ys) (simp_all add: compareSessions_le)

lemma sortBy_sort_key: "sortBy compareSessions xs = sort_key sessionKey xs"
  by (induction xs) (simp_all add: sortBy_def sort_key_def insortBy_insort_key)

lemma map_of_entries_None: "(map_of (map entryOf qs) k = None) = (k \<notin> set (map SessionPhoto.id' qs))"
  by (induction qs) (auto simp: entryOf_def)

lemma addPhoto_inv:
  assumes inv: "aggInv xs acc" and ne: "fst x \<noteq> []" "SessionPhoto.id' (snd x) \<noteq> []"
  shows "aggInv (xs @ [x]) (addPhoto (fst x) acc (snd x))"
proof -
  obtain all idMap where acc: "acc = (all, idMap)" by (cases acc)
  let ?c = "compositeOf x"
  let ?f = "freshId idMap ?c 2 ?c"
  let ?q = "(snd x)\<lparr>SessionPhoto.id' := ?f, ui_session_id := Some (fst x), ui_photo_id := Some (SessionPhoto.id' (snd x))\<rparr>"
  let ?taken = "set (map SessionPhoto.id' all)"
  from inv acc have m: "idMap = map entryOf all" and d: "distinct (map SessionPhoto.id' all)"
    and len: "length all = length xs"
    and r: "\<forall>i<length xs. aggregatedFrom (set (take i (map SessionPhoto.id' all))) (all ! i) (xs ! i)"
    and c: "distinct (map compositeOf xs) \<longrightarrow> map SessionPhoto.id' all = map compositeOf xs"
    by (simp_all add: aggInv_def)
  have taken: "(map_of idMap k = None) = (k \<notin> ?taken)" for k
    unfolding m by (rule map_of_entries_None)
  have fresh: "map_of idMap ?f = None" by (rule freshId_fresh)
  then have notin: "?f \<notin> ?taken" using taken by blast
  have step: "addPhoto (fst x) acc (snd x) = (all @ [?q], idMap @ [(?f, (fst x, SessionPhoto.id' (snd x)))])"
    using ne fresh by (simp add: addPhoto_def acc Let_def compositeOf_def update_fresh)
  have e: "entryOf ?q = (?f, (fst x, SessionPhoto.id' (snd x)))" by (simp add: entryOf_def)
  have free: "?f = ?c" if "?c \<notin> ?taken"
  proof -
    from that have "map_of idMap ?c = None" using taken by blast
    then show ?thesis by (rule freshId_same)
  qed
  have used: "\<exists>k\<ge>2. ?f = suffixed ?c k \<and> suffixed ?c k \<notin> ?taken \<and>
                (\<forall>j. 2 \<le> j \<and> j < k \<longrightarrow> suffixed ?c j \<in> ?taken)" if "?c \<in> ?taken"
  proof -
    from that have "map_of idMap ?c \<noteq> None" using taken by blast
    from freshId_first_free [OF this, of 2 ?c] show ?thesis unfolding taken by blast
  qed
  have a: "aggregatedFrom ?taken ?q x"
    unfolding aggregatedFrom_def using free used by simp
  have "aggregatedFrom (set (take i (map SessionPhoto.id' (all @ [?q])))) ((all @ [?q]) ! i) ((xs @ [x]) ! i)"
    if i: "i < length (xs @ [x])" for i
  proof (cases "i < length xs")
    case True
    then have "take i (map SessionPhoto.id' (all @ [?q])) = take i (map SessionPhoto.id' all)"
      using len by simp
    moreover have "(all @ [?q]) ! i = all ! i" "(xs @ [x]) ! i = xs ! i"
      using True len by (simp_all add: nth_append)
    ultimately show ?thesis using r True by simp
  next
    case False
    then have "i = length xs" using i by simp
    then have "take i (map SessionPhoto.id' (all @ [?q])) = map SessionPhoto.id' all"
      "(all @ [?q]) ! i = ?q" "(xs @ [x]) ! i = x"
      using len by (simp_all add: nth_append)
    then show ?thesis using a by simp
  qed
  then have "\<forall>i<length (xs @ [x]).
      aggregatedFrom (set (take i (map SessionPhoto.id' (all @ [?q])))) ((all @ [?q]) ! i) ((xs @ [x]) ! i)"
    by blast
  moreover have "length (all @ [?q]) = length (xs @ [x])" using len by simp
  moreover have "distinct (map SessionPhoto.id' (all @ [?q]))" using d notin by simp
  moreover have "idMap @ [(?f, (fst x, SessionPhoto.id' (snd x)))] = map entryOf (all @ [?q])"
    using m e by simp
  moreover have "map SessionPhoto.id' (all @ [?q]) = map compositeOf (xs @ [x])"
    if dc: "distinct (map compositeOf (xs @ [x]))"
  proof -
    from dc c have ids: "map SessionPhoto.id' all = map compositeOf xs" by simp
    from dc have "?c \<notin> set (map compositeOf xs)" by simp
    with ids have "?c \<notin> ?taken" by simp
    then have "?f = ?c" by (rule free)
    with ids show ?thesis by simp
  qed
  ultimately show ?thesis unfolding step aggInv_def fst_conv snd_conv by blast
qed

lemma foldl_addPhoto_inv:
  assumes "\<forall>x\<in>set xs. fst x \<noteq> [] \<and> SessionPhoto.id' (snd x) \<noteq> []"
  shows "aggInv xs (foldl (\<lambda>a x. addPhoto (fst x) a (snd x)) ([], []) xs)"
  using assms
proof (induction xs rule: rev_induct)
  case Nil
  then show ?case by (simp add: aggInv_def)
next
  case (snoc x xs)
  then have "aggInv xs (foldl (\<lambda>a x. addPhoto (fst x) a (snd x)) ([], []) xs)" by simp
  moreover have "fst x \<noteq> []" "SessionPhoto.id' (snd x) \<noteq> []" using snoc.prems by simp_all
  ultimately show ?case by (simp add: addPhoto_inv)
qed

lemma build_inv:
  assumes "\<forall>s\<in>set sessions. session_id s \<noteq> [] \<and> (\<forall>p\<in>set (photosOf s). SessionPhoto.id' p \<noteq> [])"
  shows "aggInv (originPhotos (sortBy compareSessions sessions)) (buildChantierAggregatedPhotos sessions)"
proof -
  have "set (sortBy compareSessions sessions) = set sessions"
    by (simp add: sortBy_sort_key)
  with assms have "\<forall>x\<in>set (originPhotos (sortBy compareSessions sessions)). fst x \<noteq> [] \<and> SessionPhoto.id' (snd x) \<noteq> []"
    by (auto simp: originPhotos_def)
  then show ?thesis
    unfolding buildChantierAggregatedPhotos_def Let_def foldl_addSession
    by (rule foldl_addPhoto_inv)
qed

lemma aggregatedFrom_tags:
  assumes "aggregatedFrom taken q x"
  shows "ui_session_id q = Some (fst x) \<and> ui_photo_id q = Some (SessionPhoto.id' (snd x))"
proof -
  let ?r = "(snd x)\<lparr>SessionPhoto.id' := SessionPhoto.id' q, ui_session_id := Some (fst x), ui_photo_id := Some (SessionPhoto.id' (snd x))\<rparr>"
  from assms have "q = ?r" by (simp add: aggregatedFrom_def)
  then have "ui_session_id q = ui_session_id ?r" "ui_photo_id q = ui_photo_id ?r" by simp_all
  then show ?thesis by simp
qed

text \<open>
  Claim C1, as amended. The sessions are visited in the order of a stable sort by
  \<^verbatim>\<open>created_at\<close> then \<^verbatim>\<open>updated_at\<close>: the sorted list is ordered by the key, is a
  permutation of the input, and keeps the input order of the sessions of equal key. For
  sessions and photos with non-empty identifiers, the output has one entry per origin
  photo of the sorted sessions, in their order; the entry of an origin photo is that photo
  with \<^verbatim>\<open>__session_id\<close> and \<^verbatim>\<open>__photo_id\<close> set; its identifier is the composite when
  no entry before it has that identifier, and otherwise the composite followed by
  \<^verbatim>\<open>__k\<close> for the first \<open>k \<ge> 2\<close> that gives an identifier no entry before it has; the
  output identifiers are pairwise distinct; \<^verbatim>\<open>idMap\<close> maps each output identifier to the
  session and the photo of its origin; and when the composites are pairwise distinct every
  identifier is the composite.
\<close>

theorem buildChantierAggregatedPhotos_ids:
  assumes "\<forall>s\<in>set sessions. session_id s \<noteq> [] \<and> (\<forall>p\<in>set (photosOf s). SessionPhoto.id' p \<noteq> [])"
  shows "sorted (map sessionKey (sortBy compareSessions sessions)) \<and>
         mset (sortBy compareSessions sessions) = mset sessions \<and>
         (\<forall>k. filter (\<lambda>s. sessionKey s = k) (sortBy compareSessions sessions)
              = filter (\<lambda>s. sessionKey s = k) sessions) \<and>
         length (fst (buildChantierAggregatedPhotos sessions))
           = length (originPhotos (sortBy compareSessions sessions)) \<and>
         (\<forall>i<length (fst (buildChantierAggregatedPhotos sessions)).
            aggregatedFrom
              (set (take i (map SessionPhoto.id' (fst (buildChantierAggregatedPhotos sessions)))))
              (fst (buildChantierAggregatedPhotos sessions) ! i)
              (originPhotos (sortBy compareSessions sessions) ! i)) \<and>
         distinct (map SessionPhoto.id' (fst (buildChantierAggregatedPhotos sessions))) \<and>
         (\<forall>i<length (fst (buildChantierAggregatedPhotos sessions)).
            map_of (snd (buildChantierAggregatedPhotos sessions))
              (SessionPhoto.id' (fst (buildChantierAggregatedPhotos sessions) ! i))
            = Some (fst (originPhotos (sortBy compareSessions sessions) ! i),
                    SessionPhoto.id' (snd (originPhotos (sortBy compareSessions sessions) ! i)))) \<and>
         (distinct (map compositeOf (originPhotos (sortBy compareSessions sessions))) \<longrightarrow>
            map SessionPhoto.id' (fst (buildChantierAggregatedPhotos sessions))
            = map compositeOf (originPhotos (sortBy compareSessions sessions)))"
proof -
  let ?out = "buildChantierAggregatedPhotos sessions"
  let ?src = "originPhotos (sortBy compareSessions sessions)"
  have inv: "aggInv ?src ?out" using assms by (rule build_inv)
  then have m: "snd ?out = map entryOf (fst ?out)" and d: "distinct (map SessionPhoto.id' (fst ?out))"
    and len: "length (fst ?out) = length ?src"
    and r: "\<forall>i<length ?src. aggregatedFrom (set (take i (map SessionPhoto.id' (fst ?out)))) (fst ?out ! i) (?src ! i)"
    and c: "distinct (map compositeOf ?src) \<longrightarrow> map SessionPhoto.id' (fst ?out) = map compositeOf ?src"
    by (simp_all add: aggInv_def)
  have r': "\<forall>i<length (fst ?out). aggregatedFrom (set (take i (map SessionPhoto.id' (fst ?out)))) (fst ?out ! i) (?src ! i)"
    using r len by simp
  have bmap: "map_of (snd ?out) (SessionPhoto.id' (fst ?out ! i)) = Some (fst (?src ! i), SessionPhoto.id' (snd (?src ! i)))"
    if i: "i < length (fst ?out)" for i
  proof -
    let ?q = "fst ?out ! i"
    have "?q \<in> set (fst ?out)" using i by simp
    then have "entryOf ?q \<in> set (snd ?out)" unfolding m by simp
    moreover have "distinct (map fst (snd ?out))"
      unfolding m using d by (simp add: entryOf_def comp_def)
    ultimately have "map_of (snd ?out) (fst (entryOf ?q)) = Some (snd (entryOf ?q))"
      by (metis map_of_is_SomeI prod.collapse)
    moreover have "aggregatedFrom (set (take i (map SessionPhoto.id' (fst ?out)))) ?q (?src ! i)"
      using r' i by blast
    then have "ui_session_id ?q = Some (fst (?src ! i)) \<and> ui_photo_id ?q = Some (SessionPhoto.id' (snd (?src ! i)))"
      by (rule aggregatedFrom_tags)
    ultimately show ?thesis by (simp add: entryOf_def)
  qed
  have s1: "sorted (map sessionKey (sortBy compareSessions sessions))"
    unfolding sortBy_sort_key by (rule sorted_sort_key)
  have s2: "mset (sortBy compareSessions sessions) = mset sessions"
    unfolding sortBy_sort_key by (rule mset_sort)
  have s3: "\<forall>k. filter (\<lambda>s. sessionKey s = k) (sortBy compareSessions sessions)
              = filter (\<lambda>s. sessionKey s = k) sessions"
    unfolding sortBy_sort_key by (simp add: sort_key_stable)
  from s1 s2 s3 len r' d bmap c show ?thesis by blast
qed

lemmas build_simps = buildChantierAggregatedPhotos_def sortBy_def compareSessions_def numberOrZero_def
  addSession_def addPhoto_def photosOf_def originPhotos_def compositeOf_def suffixed_def Let_def

lemma showNat_2: "showNat 2 = ''2''"
  by (subst showNat.simps) (simp add: digitChar_def)

text \<open>
  Claim C1 as stated fails: session \<^verbatim>\<open>a\<close> with photo \<^verbatim>\<open>b__c\<close> and session \<^verbatim>\<open>a__b\<close>
  with photo \<^verbatim>\<open>c\<close> have the same composite, and the second entry gets a suffix.
\<close>

theorem composite_id_counterexample:
  "map SessionPhoto.id' (fst (buildChantierAggregatedPhotos collidingSessions)) = [''a__b__c'', ''a__b__c__2'']
   \<and> map compositeOf (originPhotos (sortBy compareSessions collidingSessions))
       = [''a__b__c'', ''a__b__c'']"
  by (simp add: collidingSessions_def build_simps freshId.simps showNat_2)

theorem buildChantierAggregatedPhotos_ids_witness:
  "map SessionPhoto.id' (fst (buildChantierAggregatedPhotos twoSessions)) = [''s1__p1'', ''s2__p1'']
   \<and> distinct (map SessionPhoto.id' (fst (buildChantierAggregatedPhotos twoSessions)))
   \<and> map_of (snd (buildChantierAggregatedPhotos twoSessions)) ''s2__p1'' = Some (''s2'', ''p1'')
   \<and> aggregatedFrom {''a__b__c''}
        \<lparr>SessionPhoto.id' = ''a__b__c__2'', url = ''u2'', timestamp = None,
         ui_session_id = Some ''a__b'', ui_photo_id = Some ''c''\<rparr>
        (''a__b'', \<lparr>SessionPhoto.id' = ''c'', url = ''u2'', timestamp = None,
                   ui_session_id = None, ui_photo_id = None\<rparr>)"
proof -
  have h: "\<forall>s\<in>set twoSessions. session_id s \<noteq> [] \<and> (\<forall>p\<in>set (photosOf s). SessionPhoto.id' p \<noteq> [])"
    by (simp add: twoSessions_def photosOf_def)
  have src: "originPhotos (sortBy compareSessions twoSessions)
      = [(''s1'', \<lparr>SessionPhoto.id' = ''p1'', url = ''u1'', timestamp = None, ui_session_id = None, ui_photo_id = None\<rparr>),
         (''s2'', \<lparr>SessionPhoto.id' = ''p1'', url = ''u2'', timestamp = None, ui_session_id = None, ui_photo_id = None\<rparr>)]"
    by (simp add: twoSessions_def build_simps)
  note t = buildChantierAggregatedPhotos_ids [OF h]
  have ids: "map SessionPhoto.id' (fst (buildChantierAggregatedPhotos twoSessions)) = [''s1__p1'', ''s2__p1'']"
    using t by (simp add: src compositeOf_def)
  have d: "distinct (map SessionPhoto.id' (fst (buildChantierAggregatedPhotos twoSessions)))"
    using t by simp
  have l: "length (fst (buildChantierAggregatedPhotos twoSessions)) = 2"
    using t by (simp add: src)
  have n: "SessionPhoto.id' (fst (buildChantierAggregatedPhotos twoSessions) ! 1) = ''s2__p1''"
    using ids l by (metis nth_map one_less_numeral_iff semiring_norm(76) nth_Cons_0 nth_Cons_Suc One_nat_def)
  have "1 < length (fst (buildChantierAggregatedPhotos twoSessions))" using l by simp
  with t have "map_of (snd (buildChantierAggregatedPhotos twoSessions))
              (SessionPhoto.id' (fst (buildChantierAggregatedPhotos twoSessions) ! 1))
            = Some (fst (originPhotos (sortBy compareSessions twoSessions) ! 1),
                    SessionPhoto.id' (snd (originPhotos (sortBy compareSessions twoSessions) ! 1)))"
    by blast
  then have m: "map_of (snd (buildChantierAggregatedPhotos twoSessions)) ''s2__p1'' = Some (''s2'', ''p1'')"
    unfolding n src by simp
  have h2: "\<forall>s\<in>set collidingSessions. session_id s \<noteq> [] \<and> (\<forall>p\<in>set (photosOf s). SessionPhoto.id' p \<noteq> [])"
    by (simp add: collidingSessions_def photosOf_def)
  have out2: "fst (buildChantierAggregatedPhotos collidingSessions)
      = [\<lparr>SessionPhoto.id' = ''a__b__c'', url = ''u1'', timestamp = None,
          ui_session_id = Some ''a'', ui_photo_id = Some ''b__c''\<rparr>,
         \<lparr>SessionPhoto.id' = ''a__b__c__2'', url = ''u2'', timestamp = None,
          ui_session_id = Some ''a__b'', ui_photo_id = Some ''c''\<rparr>]"
    by (simp add: collidingSessions_def build_simps freshId.simps showNat_2)
  have src2: "originPhotos (sortBy compareSessions collidingSessions)
      = [(''a'', \<lparr>SessionPhoto.id' = ''b__c'', url = ''u1'', timestamp = None, ui_session_id = None, ui_photo_id = None\<rparr>),
         (''a__b'', \<lparr>SessionPhoto.id' = ''c'', url = ''u2'', timestamp = None, ui_session_id = None, ui_photo_id = None\<rparr>)]"
    by (simp add: collidingSessions_def build_simps)
  have "\<forall>i<length (fst (buildChantierAggregatedPhotos collidingSessions)).
            aggregatedFrom
              (set (take i (map SessionPhoto.id' (fst (buildChantierAggregatedPhotos collidingSessions)))))
              (fst (buildChantierAggregatedPhotos collidingSessions) ! i)
              (originPhotos (sortBy compareSessions collidingSessions) ! i)"
    using buildChantierAggregatedPhotos_ids [OF h2] by blast
  moreover have "1 < length (fst (buildChantierAggregatedPhotos collidingSessions))"
    by (simp add: out2)
  ultimately have "aggregatedFrom
              (set (take 1 (map SessionPhoto.id' (fst (buildChantierAggregatedPhotos collidingSessions)))))
              (fst (buildChantierAggregatedPhotos collidingSessions) ! 1)
              (originPhotos (sortBy compareSessions collidingSessions) ! 1)"
    by blast
  then have a: "aggregatedFrom {''a__b__c''}
        \<lparr>SessionPhoto.id' = ''a__b__c__2'', url = ''u2'', timestamp = None,
         ui_session_id = Some ''a__b'', ui_photo_id = Some ''c''\<rparr>
        (''a__b'', \<lparr>SessionPhoto.id' = ''c'', url = ''u2'', timestamp = None,
                   ui_session_id = None, ui_photo_id = None\<rparr>)"
    unfolding out2 src2 by simp
  from ids d m a show ?thesis by (intro conjI)
qed
subsection \<open>Merge of a patch\<close>

lemma mergeKeys_map_of:
  "distinct (map fst ps) \<Longrightarrow>
   map_of (mergeKeys base ps out) k =
     (case map_of ps k of
        None \<Rightarrow> map_of out k
      | Some pv \<Rightarrow> Some (mergeValue (map_of base k) pv))"
proof (induction ps arbitrary: out)
  case Nil
  then show ?case by simp
next
  case (Cons e ps)
  obtain k' pv' where e: "e = (k', pv')" by (cases e)
  from Cons.prems e have d: "distinct (map fst ps)" and n: "k' \<notin> fst ` set ps" by simp_all
  from n have none: "map_of ps k' = None" by (simp add: map_of_eq_None_iff)
  show ?case
    using Cons.IH [OF d] none by (simp add: e update_conv' split: option.splits)
qed

lemma mergeIndices_mergeKeys:
  "mergeIndices base i xs out = mergeKeys base (zip (map showNat [i..<i + length xs]) xs) out"
proof (induction xs arbitrary: i out)
  case Nil
  then show ?case by simp
next
  case (Cons x xs)
  have "i < i + length (x # xs)" by simp
  then have "[i..<i + length (x # xs)] = i # [Suc i..<i + length (x # xs)]"
    by (rule upt_conv_Cons)
  moreover have "i + length (x # xs) = Suc i + length xs" by simp
  ultimately have u: "[i..<i + length (x # xs)] = i # [Suc i..<Suc i + length xs]"
    by (simp only:)
  show ?case unfolding u using Cons.IH [of "Suc i"] by simp
qed

lemma deepMerge_entries: "deepMerge base patch = mergeKeys base (patchEntries patch) base"
  by (cases patch) (simp_all add: patchEntries_def mergeIndices_mergeKeys)

lemma mergeValue_cases:
  "mergeValue bv pv =
     (case pv of
        JObj p \<Rightarrow> (case bv of Some (JObj b) \<Rightarrow> JObj (deepMerge b pv) | _ \<Rightarrow> pv)
      | _ \<Rightarrow> pv)"
  by (cases "(bv, pv)" rule: mergeValue.cases) (auto split: json.splits option.splits)

text \<open>
  Claim C9. For every base object, every patch and every key: a key of the patch whose
  value and whose base counterpart are both plain objects holds the recursive merge of the
  two; a key of the patch whose value, or whose base counterpart, is not a plain object (an
  array, a scalar, nothing) holds the value of the patch, whole; and a key that the patch
  does not have keeps the value of the base.
\<close>

theorem deepMerge_conflict_rule:
  assumes "distinct (map fst (patchEntries patch))"
  shows "(\<forall>pv. map_of (patchEntries patch) k = Some pv \<longrightarrow>
            (\<forall>p b. pv = JObj p \<and> map_of base k = Some (JObj b) \<longrightarrow>
               map_of (deepMerge base patch) k = Some (JObj (deepMerge b pv))) \<and>
            ((\<forall>p. pv \<noteq> JObj p) \<or> (\<forall>b. map_of base k \<noteq> Some (JObj b)) \<longrightarrow>
               map_of (deepMerge base patch) k = Some pv))
       \<and> (map_of (patchEntries patch) k = None \<longrightarrow>
            map_of (deepMerge base patch) k = map_of base k)"
  using mergeKeys_map_of [OF assms, of base base k]
  by (auto simp: deepMerge_entries mergeValue_cases split: json.splits option.splits)

text \<open>The keys of an array patch are distinct, and a patch that is not an object changes nothing.\<close>

lemma patchEntries_array_distinct: "distinct (map fst (patchEntries (JArr xs)))"
proof -
  have "map fst (zip (map showNat [0..<length xs]) xs) = map showNat [0..<length xs]"
    by simp
  moreover have "distinct (map showNat [0..<length xs])"
    by (simp add: distinct_map inj_on_def showNat_inj)
  ultimately show ?thesis by (simp add: patchEntries_def)
qed

lemma deepMerge_not_object:
  "patch \<in> {JUndefined, JNull} \<or> (\<exists>b. patch = JBool b) \<or> (\<exists>n. patch = JNum n) \<or> (\<exists>s. patch = JStr s)
     \<Longrightarrow> deepMerge base patch = base"
  by auto

theorem deepMerge_conflict_rule_witness:
  "map_of (deepMerge [(''status'', JStr ''NEW''), (''publication'', JObj [(''slug'', JStr ''a''), (''by'', JStr ''x'')]),
                      (''phones'', JArr [JStr ''1'', JStr ''2''])]
            (JObj [(''publication'', JObj [(''slug'', JStr ''b'')]), (''phones'', JArr [JStr ''3''])]))
     ''publication''
   = Some (JObj [(''slug'', JStr ''b''), (''by'', JStr ''x'')])
   \<and> map_of (deepMerge [(''status'', JStr ''NEW''), (''publication'', JObj [(''slug'', JStr ''a''), (''by'', JStr ''x'')]),
                      (''phones'', JArr [JStr ''1'', JStr ''2''])]
            (JObj [(''publication'', JObj [(''slug'', JStr ''b'')]), (''phones'', JArr [JStr ''3''])]))
     ''phones''
   = Some (JArr [JStr ''3''])
   \<and> map_of (deepMerge [(''status'', JStr ''NEW''), (''publication'', JObj [(''slug'', JStr ''a''), (''by'', JStr ''x'')]),
                      (''phones'', JArr [JStr ''1'', JStr ''2''])]
            (JObj [(''publication'', JObj [(''slug'', JStr ''b'')]), (''phones'', JArr [JStr ''3''])]))
     ''status''
   = Some (JStr ''NEW'')"
proof -
  let ?base = "[(''status'', JStr ''NEW''), (''publication'', JObj [(''slug'', JStr ''a''), (''by'', JStr ''x'')]),
                      (''phones'', JArr [JStr ''1'', JStr ''2''])]"
  let ?patch = "JObj [(''publication'', JObj [(''slug'', JStr ''b'')]), (''phones'', JArr [JStr ''3''])]"
  have d: "distinct (map fst (patchEntries ?patch))" by (simp add: patchEntries_def)
  show ?thesis
    using deepMerge_conflict_rule [OF d, of "''publication''" ?base]
      deepMerge_conflict_rule [OF d, of "''phones''" ?base]
      deepMerge_conflict_rule [OF d, of "''status''" ?base]
    by (simp add: patchEntries_def)
qed
subsection \<open>Notes of the session detail page\<close>

lemma arrayFromSet_single: "arrayFromSet [x] = [x]"
  by (simp add: arrayFromSet_def)

lemma upsertNote_no_active:
  assumes "trim (noteText st) \<noteq> []"
    and "activeNoteId st = None \<or> activeNoteId st = Some []"
  shows "upsertNote env st =
           st\<lparr>notes' := \<lparr>id' = uid ''note'' env, text' = trim (noteText st),
                        photo_ids = arrayFromSet (filter (\<lambda>p. p \<noteq> []) (notePhotos st)),
                        assets = Some [], updated_at = Some (nowMs env div 1000),
                        created_at = Some (nowMs env div 1000)\<rparr> # notes' st,
              activeNoteId := Some (uid ''note'' env),
              selectedAssetId := None,
              toast := Some \<lparr>type = Success, message = ''Note SAV creee.''\<rparr>\<rparr>"
proof -
  from assms(2) have "(case activeNoteId st of None \<Rightarrow> None | Some a \<Rightarrow> if a = [] then None else Some a) = None"
    by (cases "activeNoteId st") auto
  then show ?thesis using assms(1) by (simp add: upsertNote_def Let_def)
qed

lemma upsertNote_active_absent:
  assumes "trim (noteText st) \<noteq> []" and "activeNoteId st = Some a" and "a \<noteq> []"
    and "\<not> list_ex (\<lambda>n. SavNote.id' n = a) (notes' st)"
  shows "upsertNote env st =
           st\<lparr>notes' := \<lparr>id' = a, text' = trim (noteText st),
                        photo_ids = arrayFromSet (filter (\<lambda>p. p \<noteq> []) (notePhotos st)),
                        assets = Some [], updated_at = Some (nowMs env div 1000),
                        created_at = Some (nowMs env div 1000)\<rparr> # notes' st,
              toast := Some \<lparr>type = Success, message = ''Note SAV creee.''\<rparr>\<rparr>"
  using assms by (simp add: upsertNote_def Let_def)

lemma upsertNote_active_present:
  assumes "trim (noteText st) \<noteq> []" and "activeNoteId st = Some a" and "a \<noteq> []"
    and "list_ex (\<lambda>n. SavNote.id' n = a) (notes' st)"
  shows "upsertNote env st =
           st\<lparr>notes' := map (\<lambda>n. if SavNote.id' n = a
                      then n\<lparr>text' := trim (noteText st),
                             photo_ids := arrayFromSet (filter (\<lambda>p. p \<noteq> []) (notePhotos st)),
                             updated_at := Some (nowMs env div 1000)\<rparr>
                      else n) (notes' st),
              toast := Some \<lparr>type = Success, message = ''Note SAV mise a jour.''\<rparr>\<rparr>"
  using assms by (simp add: upsertNote_def Let_def)


text \<open>
  Claim C5, as amended. A text that is blank after trimming changes nothing but the toast,
  which is the error. A text that is not blank, with one linked photo, creates exactly one
  note when there is no active note or when no note has the identifier of the active note:
  the new note comes first, under the identifier of the active note or else under a new
  \<^verbatim>\<open>uid\<close>, with the trimmed text and that photo alone, and the identifiers stay distinct
  provided the new one is not in use (the code does not look whether a \<^verbatim>\<open>uid\<close> is);
  when a note has the identifier of the active note, that note is rewritten in place and no
  note is added.
\<close>

theorem upsertNote_blank_create_update:
  "(trim (noteText st) = [] \<longrightarrow>
      upsertNote env st =
        st\<lparr>toast := Some \<lparr>type = Error,
               message = ''Ecris au moins une recommandation SAV dans la note.''\<rparr>\<rparr> \<and>
      notes' (upsertNote env st) = notes' st)
   \<and> (trim (noteText st) \<noteq> [] \<and> notePhotos st = [pid] \<and> pid \<noteq> [] \<and>
       (activeNoteId st = None \<or> activeNoteId st = Some [] \<or>
        upsertTarget env st \<notin> set (map SavNote.id' (notes' st))) \<longrightarrow>
      notes' (upsertNote env st) =
        \<lparr>id' = upsertTarget env st, text' = trim (noteText st), photo_ids = [pid],
         assets = Some [], updated_at = Some (nowMs env div 1000),
         created_at = Some (nowMs env div 1000)\<rparr> # notes' st \<and>
      toast (upsertNote env st) = Some \<lparr>type = Success, message = ''Note SAV creee.''\<rparr> \<and>
      (upsertTarget env st \<notin> set (map SavNote.id' (notes' st)) \<and>
       distinct (map SavNote.id' (notes' st)) \<longrightarrow>
         distinct (map SavNote.id' (notes' (upsertNote env st)))))
   \<and> (trim (noteText st) \<noteq> [] \<and> notePhotos st = [pid] \<and> pid \<noteq> [] \<and>
       activeNoteId st = Some a \<and> a \<noteq> [] \<and> a \<in> set (map SavNote.id' (notes' st)) \<longrightarrow>
      notes' (upsertNote env st) =
        map (\<lambda>n. if SavNote.id' n = a
                   then n\<lparr>text' := trim (noteText st), photo_ids := [pid],
                          updated_at := Some (nowMs env div 1000)\<rparr>
                   else n) (notes' st) \<and>
      length (notes' (upsertNote env st)) = length (notes' st))"
proof (intro conjI impI)
  assume "trim (noteText st) = []"
  then show "upsertNote env st =
        st\<lparr>toast := Some \<lparr>type = Error,
               message = ''Ecris au moins une recommandation SAV dans la note.''\<rparr>\<rparr>"
    "notes' (upsertNote env st) = notes' st"
    by (simp_all add: upsertNote_def)
next
  assume a: "trim (noteText st) \<noteq> [] \<and> notePhotos st = [pid] \<and> pid \<noteq> [] \<and>
       (activeNoteId st = None \<or> activeNoteId st = Some [] \<or>
        upsertTarget env st \<notin> set (map SavNote.id' (notes' st)))"
  then have t: "trim (noteText st) \<noteq> []" by simp
  from a have ph: "arrayFromSet (filter (\<lambda>p. p \<noteq> []) (notePhotos st)) = [pid]"
    by (simp add: arrayFromSet_single)
  have n: "notes' (upsertNote env st) =
        \<lparr>id' = upsertTarget env st, text' = trim (noteText st), photo_ids = [pid],
         assets = Some [], updated_at = Some (nowMs env div 1000),
         created_at = Some (nowMs env div 1000)\<rparr> # notes' st
      \<and> toast (upsertNote env st) = Some \<lparr>type = Success, message = ''Note SAV creee.''\<rparr>"
  proof (cases "activeNoteId st = None \<or> activeNoteId st = Some []")
    case True
    then have u: "upsertTarget env st = uid ''note'' env"
      by (auto simp: upsertTarget_def)
    show ?thesis
      unfolding upsertNote_no_active [OF t True] u ph by simp
  next
    case False
    then obtain b where b: "activeNoteId st = Some b" "b \<noteq> []"
      by (cases "activeNoteId st") auto
    then have u: "upsertTarget env st = b" by (simp add: upsertTarget_def)
    from a False have "b \<notin> set (map SavNote.id' (notes' st))" unfolding u by blast
    then have ex: "\<not> list_ex (\<lambda>n. SavNote.id' n = b) (notes' st)"
      by (force simp: list_ex_iff)
    show ?thesis
      unfolding upsertNote_active_absent [OF t b ex] u ph by simp
  qed
  then show "notes' (upsertNote env st) =
        \<lparr>id' = upsertTarget env st, text' = trim (noteText st), photo_ids = [pid],
         assets = Some [], updated_at = Some (nowMs env div 1000),
         created_at = Some (nowMs env div 1000)\<rparr> # notes' st"
    "toast (upsertNote env st) = Some \<lparr>type = Success, message = ''Note SAV creee.''\<rparr>"
    by blast+
  show "distinct (map SavNote.id' (notes' (upsertNote env st)))"
    if "upsertTarget env st \<notin> set (map SavNote.id' (notes' st)) \<and>
        distinct (map SavNote.id' (notes' st))"
    using that n by simp
next
  assume a: "trim (noteText st) \<noteq> [] \<and> notePhotos st = [pid] \<and> pid \<noteq> [] \<and>
       activeNoteId st = Some a \<and> a \<noteq> [] \<and> a \<in> set (map SavNote.id' (notes' st))"
  then have ex: "list_ex (\<lambda>n. SavNote.id' n = a) (notes' st)"
    by (force simp: list_ex_iff)
  from a have ph: "arrayFromSet (filter (\<lambda>p. p \<noteq> []) (notePhotos st)) = [pid]"
    by (simp add: arrayFromSet_single)
  from a have h: "trim (noteText st) \<noteq> []" "activeNoteId st = Some a" "a \<noteq> []" by simp_all
  show n: "notes' (upsertNote env st) =
        map (\<lambda>n. if SavNote.id' n = a
                   then n\<lparr>text' := trim (noteText st), photo_ids := [pid],
                          updated_at := Some (nowMs env div 1000)\<rparr>
                   else n) (notes' st)"
    unfolding upsertNote_active_present [OF h ex] ph by simp
  show "length (notes' (upsertNote env st)) = length (notes' st)"
    unfolding n by simp
qed




lemma showHex_10: "showHex 10 = ''a''"
  by (subst showHex.simps) (simp add: hexDigit_def)

lemma trim_blank3: "trim [CHR '' '', CHR 0xC2, CHR 0xA0, CHR 0x09] = []"
  by (simp add: trim_simps)

lemma trim_joint: "trim '' Joint a changer '' = ''Joint a changer''"
  by (simp add: trim_simps)

lemma trim_nouveau: "trim ''Nouveau texte'' = ''Nouveau texte''"
  by (simp add: trim_simps)

theorem upsertNote_blank_create_update_witness:
  "notes' (upsertNote \<lparr>nowMs = 10, randomHex = ''8f''\<rparr>
            (emptyPage\<lparr>noteText := [CHR '' '', CHR 0xC2, CHR 0xA0, CHR 0x09]\<rparr>)) = []
   \<and> notes' (upsertNote \<lparr>nowMs = 10, randomHex = ''8f''\<rparr>
               (emptyPage\<lparr>noteText := '' Joint a changer '', notePhotos := [''S1__p1'']\<rparr>))
       = [\<lparr>id' = ''note_8f_a'', text' = ''Joint a changer'', photo_ids = [''S1__p1''],
           assets = Some [], updated_at = Some 0, created_at = Some 0\<rparr>]
   \<and> length (notes' (upsertNote \<lparr>nowMs = 10, randomHex = ''8f''\<rparr>
               (notedPage\<lparr>noteText := ''Nouveau texte'', notePhotos := [''S1__p1'']\<rparr>))) = 1"
proof -
  let ?env = "\<lparr>nowMs = 10, randomHex = ''8f''\<rparr>"
  have "notes' (upsertNote ?env (emptyPage\<lparr>noteText := [CHR '' '', CHR 0xC2, CHR 0xA0, CHR 0x09]\<rparr>)) = []"
    using upsertNote_blank_create_update
      [where st = "emptyPage\<lparr>noteText := [CHR '' '', CHR 0xC2, CHR 0xA0, CHR 0x09]\<rparr>" and env = ?env,
        THEN conjunct1]
    by (simp add: emptyPage_def trim_blank3)
  moreover have "notes' (upsertNote ?env
               (emptyPage\<lparr>noteText := '' Joint a changer '', notePhotos := [''S1__p1'']\<rparr>))
       = [\<lparr>id' = ''note_8f_a'', text' = ''Joint a changer'', photo_ids = [''S1__p1''],
           assets = Some [], updated_at = Some 0, created_at = Some 0\<rparr>]"
    using upsertNote_blank_create_update
      [where st = "emptyPage\<lparr>noteText := '' Joint a changer '', notePhotos := [''S1__p1'']\<rparr>"
         and pid = "''S1__p1''" and env = ?env, THEN conjunct2, THEN conjunct1]
    by (simp add: emptyPage_def trim_joint upsertTarget_def uid_def showHex_10)
  moreover have "length (notes' (upsertNote ?env
               (notedPage\<lparr>noteText := ''Nouveau texte'', notePhotos := [''S1__p1'']\<rparr>))) = 1"
    using upsertNote_blank_create_update
      [where st = "notedPage\<lparr>noteText := ''Nouveau texte'', notePhotos := [''S1__p1'']\<rparr>"
         and pid = "''S1__p1''" and env = ?env and a = "''n1''", THEN conjunct2, THEN conjunct2]
    by (simp add: notedPage_def emptyPage_def trim_nouveau)
  ultimately show ?thesis by simp
qed


text \<open>
  Claim C5 as stated fails in two places. Where the active note exists, a text and one
  linked photo rewrite the note \<^verbatim>\<open>n1\<close>: the list still has one entry, none of them
  new. And the identifier of a new note is not looked for among the notes: when
  \<^verbatim>\<open>Math.random\<close> and \<^verbatim>\<open>Date.now\<close> give \<^verbatim>\<open>8f\<close> and \<^verbatim>\<open>10\<close> while a note
  \<^verbatim>\<open>note_8f_a\<close> exists, the new note takes the same identifier.
\<close>

theorem upsertNote_new_entry_counterexample:
  "notes' (upsertNote \<lparr>nowMs = 5000, randomHex = ''8f''\<rparr>
            (notedPage\<lparr>noteText := ''Nouveau texte'', notePhotos := [''S1__p1'']\<rparr>))
   = [\<lparr>id' = ''n1'', text' = ''Nouveau texte'', photo_ids = [''S1__p1''],
       assets = Some [\<lparr>asset_id = ''a1'', filename = None, asset_url = None\<rparr>],
       updated_at = Some 5, created_at = Some 1\<rparr>]
   \<and> map SavNote.id'
        (notes' (upsertNote \<lparr>nowMs = 10, randomHex = ''8f''\<rparr>
           (emptyPage\<lparr>notes' := [\<lparr>id' = ''note_8f_a'', text' = ''Ancien texte'', photo_ids = [],
                                    assets = Some [], updated_at = Some 0, created_at = Some 0\<rparr>],
                      noteText := ''Nouveau texte'', notePhotos := [''S1__p1'']\<rparr>)))
     = [''note_8f_a'', ''note_8f_a'']"
proof -
  let ?st = "notedPage\<lparr>noteText := ''Nouveau texte'', notePhotos := [''S1__p1'']\<rparr>"
  have t: "trim (noteText ?st) \<noteq> []" by (simp add: trim_nouveau)
  have a: "activeNoteId ?st = Some ''n1''" by (simp add: notedPage_def)
  have n: "''n1'' \<noteq> []" by simp
  have ex: "list_ex (\<lambda>n. SavNote.id' n = ''n1'') (notes' ?st)"
    by (simp add: notedPage_def)
  have one: "notes' (upsertNote \<lparr>nowMs = 5000, randomHex = ''8f''\<rparr> ?st)
   = [\<lparr>id' = ''n1'', text' = ''Nouveau texte'', photo_ids = [''S1__p1''],
       assets = Some [\<lparr>asset_id = ''a1'', filename = None, asset_url = None\<rparr>],
       updated_at = Some 5, created_at = Some 1\<rparr>]"
    unfolding upsertNote_active_present [OF t a n ex]
    by (simp add: notedPage_def trim_nouveau arrayFromSet_def)
  let ?st2 = "emptyPage\<lparr>notes' := [\<lparr>id' = ''note_8f_a'', text' = ''Ancien texte'', photo_ids = [],
                                    assets = Some [], updated_at = Some 0, created_at = Some 0\<rparr>],
                      noteText := ''Nouveau texte'', notePhotos := [''S1__p1'']\<rparr>"
  have t2: "trim (noteText ?st2) \<noteq> []" by (simp add: trim_nouveau)
  have a2: "activeNoteId ?st2 = None \<or> activeNoteId ?st2 = Some []" by (simp add: emptyPage_def)
  have two: "map SavNote.id' (notes' (upsertNote \<lparr>nowMs = 10, randomHex = ''8f''\<rparr> ?st2))
     = [''note_8f_a'', ''note_8f_a'']"
    unfolding upsertNote_no_active [OF t2 a2]
    by (simp add: uid_def showHex_10)
  from one two show ?thesis by (intro conjI)
qed
subsection \<open>Publication\<close>

lemma publishChantier_success:
  assumes "ok res" and "json' res = Returns data"
  shows "publishChantier st cid (Returns res) notify =
           st\<lparr>publishing := False,
              sent := sent st @
                [\<lparr>api = InternalApi, verb = POST,
                  path = ''/chantiers/'' @ encodeURIComponent cid @ ''/publish'',
                  body = Some (JObj [(''author'', JStr (orString (author st) ''Service Technique''))])\<rparr>,
                 \<lparr>api = WebhookApi, verb = POST, path = ''/notify-chantier-published'',
                  body = Some (JObj [(''chantier_id'', JStr cid),
                                (''author'', JStr (orString (author st) ''Service Technique'')),
                                (''public_url'', getProp data ''public_url'')])\<rparr>],
              chantier := Some (publishedChantier (chantier st) data),
              detail := map_option (\<lambda>d. d\<lparr>SessionDetail.status := Some statusPublie\<rparr>) (detail st),
              console := console st @ notifyChantierLog notify,
              toast := Some \<lparr>type = Success, message = ''Rapport chantier publie.''\<rparr>\<rparr>"
  using assms by (simp add: publishChantier_def notifyChantierPublished_def Let_def)

lemma publishSession_success:
  assumes "ok res" and "json' res = Returns updated"
  shows "publishSession st included (Returns res) notify =
           st\<lparr>publishing := False,
              sent := sent st @
                [\<lparr>api = InternalApi, verb = POST,
                  path = ''/sessions/'' @ encodeURIComponent (effectiveSessionId st) @ ''/publish'',
                  body = Some (JObj [(''author'', JStr (orString (author st) ''Service Technique'')),
                                     (''items'', JArr (map publishItem included))])\<rparr>,
                 \<lparr>api = WebhookApi, verb = POST, path = ''/notify-session-published'',
                  body = Some (JObj [(''session_id'', JStr (effectiveSessionId st)),
                                (''author'', JStr (orString (author st) ''Service Technique''))])\<rparr>],
              detail := Some updated,
              console := console st @ notifySessionLog notify,
              toast := Some \<lparr>type = Success, message = ''Rapport publie.''\<rparr>\<rparr>"
  using assms
  by (simp add: publishSession_def notifySessionPublished_def Let_def effectiveSessionId_def)

lemma handlePublishSession_success:
  assumes "SessionPage.detail st = Some d" and "sessionId st \<noteq> []" and "photosOf d \<noteq> []"
    and "ok res" and "json' res = Returns updated"
  shows "handlePublishSession st (Returns res) notify =
           st\<lparr>SessionPage.publishing := False,
              SessionPage.sent := SessionPage.sent st @
                [\<lparr>api = InternalApi, verb = POST,
                  path = ''/sessions/'' @ encodeURIComponent (sessionId st) @ ''/publish'',
                  body = Some (JObj [(''author'', JStr (orString (SessionPage.author st) ''Service Technique'')),
                                     (''items'', JArr (map (draftItem (drafts st)) (photosOf d)))])\<rparr>,
                 \<lparr>api = WebhookApi, verb = POST, path = ''/notify-session-published'',
                  body = Some (JObj [(''session_id'', JStr (sessionId st)),
                                (''author'', JStr (orString (SessionPage.author st) ''Service Technique''))])\<rparr>],
              SessionPage.detail := Some updated,
              SessionPage.console := SessionPage.console st @ notifyLog notify,
              SessionPage.toast := Some \<lparr>type = Success,
                  message = ''Diagnostic publie et envoye a l'installateur.''\<rparr>\<rparr>"
  using assms by (simp add: handlePublishSession_def Let_def)


lemma mergeValue_scalar: "\<forall>es. v \<noteq> JObj es \<Longrightarrow> mergeValue bv v = v"
  by (cases "(bv, v)" rule: mergeValue.cases) auto

lemma withProps_distinct: "distinct (map fst es) \<Longrightarrow> distinct (map fst (withProps es kvs))"
  unfolding withProps_def
  by (induction kvs arbitrary: es) (simp_all add: distinct_update)

lemma withProps4_map_of:
  "map_of (withProps es [(k1, v1), (k2, v2), (k3, v3), (k4, v4)]) =
     (map_of es)(k1 \<mapsto> v1, k2 \<mapsto> v2, k3 \<mapsto> v3, k4 \<mapsto> v4)"
  by (simp add: withProps_def update_conv')

lemma publicationPatch_distinct: "distinct (map fst (patchEntries (publicationPatch prev data)))"
  by (simp add: publicationPatch_def Let_def patchEntries_def)

lemma publishedChantier_map_of:
  "map_of (publishedChantier prev data) k =
      (case map_of (patchEntries (publicationPatch prev data)) k of
         None \<Rightarrow> (case prev of None \<Rightarrow> None | Some p \<Rightarrow> map_of p k)
       | Some pv \<Rightarrow> Some (case prev of None \<Rightarrow> pv | Some p \<Rightarrow> mergeValue (map_of p k) pv))"
  by (cases prev)
    (simp_all add: deepMerge_entries mergeKeys_map_of [OF publicationPatch_distinct]
      publishedChantier_def split: option.splits)

lemma publishedChantier_top:
  assumes "truthy v" "\<forall>es. v \<noteq> JObj es"
  shows "getProp data ''status'' = v \<Longrightarrow>
           getProp (JObj (publishedChantier prev data)) ''status'' = v"
    and "getProp data ''updated_at'' = v \<Longrightarrow>
           getProp (JObj (publishedChantier prev data)) ''updated_at'' = v"
  using assms
  by (simp_all add: getProp_def publishedChantier_map_of publicationPatch_def Let_def
      patchEntries_def orJson_def mergeValue_scalar split: option.splits)

lemma merged_publication:
  assumes "map_of P k = Some v" "\<forall>es. v \<noteq> JObj es"
    and "\<forall>b. bv = Some (JObj b) \<longrightarrow> distinct (map fst P)"
  shows "getProp (mergeValue bv (JObj P)) k = v"
proof (cases "\<exists>b. bv = Some (JObj b)")
  case True
  then obtain b where b: "bv = Some (JObj b)" by blast
  then have d: "distinct (map fst P)" using assms(3) by simp
  have "map_of (mergeKeys b P b) k = Some (mergeValue (map_of b k) v)"
    using mergeKeys_map_of [OF d, of b b k] assms(1) by simp
  then show ?thesis
    using assms(2) by (simp add: b getProp_def mergeValue_scalar)
next
  case False
  then have "mergeValue bv (JObj P) = JObj P"
    by (auto simp: mergeValue_cases split: option.splits json.splits)
  then show ?thesis using assms(1) by (simp add: getProp_def)
qed

lemma publishedChantier_publication_entry:
  "map_of (publishedChantier prev data) ''publication'' =
     Some (case prev of
             None \<Rightarrow> JObj (publicationProps prev data)
           | Some p \<Rightarrow> mergeValue (map_of p ''publication'') (JObj (publicationProps prev data)))"
  by (simp add: publishedChantier_map_of publicationPatch_def Let_def patchEntries_def)

lemma publicationProps_distinct:
  assumes "map_of p ''publication'' = Some (JObj b)" "distinct (map fst b)"
  shows "distinct (map fst (publicationProps (Some p) data))"
  using assms
  by (simp add: publicationProps_def Let_def getProp_def orJson_def truthy_def spreadOf_def
      withProps_distinct)

lemma publishedChantier_publication:
  assumes "truthy v" "\<forall>es. v \<noteq> JObj es"
    and wf: "\<forall>b. getProp (case prev of None \<Rightarrow> JNull | Some p \<Rightarrow> JObj p) ''publication'' = JObj b
               \<longrightarrow> distinct (map fst b)"
    and k: "(dk, k) \<in> {(''public_slug'', ''report_public_slug''), (''public_url'', ''report_public_url''),
                       (''last_published_at'', ''last_published_at''),
                       (''last_published_by'', ''last_published_by'')}"
    and v: "getProp data dk = v"
  shows "getProp (getProp (JObj (publishedChantier prev data)) ''publication'') k = v"
proof -
  have m: "map_of (publicationProps prev data) k = Some v"
    using k v assms(1)
    by (auto simp: publicationProps_def Let_def withProps4_map_of orJson_def)
  show ?thesis
  proof (cases prev)
    case None
    then show ?thesis
      using m by (simp add: getProp_def publishedChantier_publication_entry)
  next
    case (Some p)
    have "\<forall>b. map_of p ''publication'' = Some (JObj b) \<longrightarrow>
            distinct (map fst (publicationProps (Some p) data))"
      using wf Some publicationProps_distinct [of p] by (auto simp: getProp_def)
    from merged_publication [OF m [unfolded Some] assms(2) this]
    show ?thesis
      by (simp add: Some getProp_def [of "JObj (publishedChantier (Some p) data)"]
          publishedChantier_publication_entry)
  qed
qed

text \<open>
  Claim C6. Once the publication request has succeeded (a response that is \<^verbatim>\<open>ok\<close> and
  whose body parses), then whatever the outcome of the notification, a rejected request
  included: the toast is the success, the local state holds what the response gave, and
  \<^verbatim>\<open>publishing\<close> is back to false. For a chantier, what the response gave is read
  back from the local chantier: each of \<^verbatim>\<open>status\<close> and \<^verbatim>\<open>updated_at\<close> of the
  response, and each of \<^verbatim>\<open>public_slug\<close>, \<^verbatim>\<open>public_url\<close>, \<^verbatim>\<open>last_published_at\<close>
  and \<^verbatim>\<open>last_published_by\<close> under \<^verbatim>\<open>publication\<close>, when the response has a value
  for it (truthy, and not itself a plain object); the names of the properties of the
  previous publication are taken distinct, as those of an object are. For a session, the
  local session is the one the server returned. This holds for the publication of a
  chantier, for the publication of a session, and for the superseded session page.
\<close>

theorem publish_survives_notification_failure:
  "(detail st \<noteq> None \<and> isChantierMode st \<and> chantier_id (chantierMeta st) = Some cid \<and>
    pubChantier = Returns resC \<and> ok resC \<and> json' resC = Returns data \<longrightarrow>
      toast (handlePublish st pubChantier pubSession notify)
        = Some \<lparr>type = Success, message = ''Rapport chantier publie.''\<rparr> \<and>
      chantier (handlePublish st pubChantier pubSession notify)
        = Some (publishedChantier (chantier st) data) \<and>
      (\<forall>v. truthy v \<and> (\<forall>es. v \<noteq> JObj es) \<longrightarrow>
         (getProp data ''status'' = v \<longrightarrow>
            getProp (chantierJson (handlePublish st pubChantier pubSession notify)) ''status'' = v) \<and>
         (getProp data ''updated_at'' = v \<longrightarrow>
            getProp (chantierJson (handlePublish st pubChantier pubSession notify)) ''updated_at'' = v) \<and>
         ((\<forall>b. getProp (chantierJson st) ''publication'' = JObj b \<longrightarrow> distinct (map fst b)) \<longrightarrow>
            (getProp data ''public_slug'' = v \<longrightarrow>
               getProp (getProp (chantierJson (handlePublish st pubChantier pubSession notify))
                  ''publication'') ''report_public_slug'' = v) \<and>
            (getProp data ''public_url'' = v \<longrightarrow>
               getProp (getProp (chantierJson (handlePublish st pubChantier pubSession notify))
                  ''publication'') ''report_public_url'' = v) \<and>
            (getProp data ''last_published_at'' = v \<longrightarrow>
               getProp (getProp (chantierJson (handlePublish st pubChantier pubSession notify))
                  ''publication'') ''last_published_at'' = v) \<and>
            (getProp data ''last_published_by'' = v \<longrightarrow>
               getProp (getProp (chantierJson (handlePublish st pubChantier pubSession notify))
                  ''publication'') ''last_published_by'' = v))) \<and>
      detail (handlePublish st pubChantier pubSession notify)
        = map_option (\<lambda>d. d\<lparr>SessionDetail.status := Some statusPublie\<rparr>) (detail st) \<and>
      publishing (handlePublish st pubChantier pubSession notify) = False)
   \<and> (detail st = Some d \<and> \<not> isChantierMode st \<and> \<not> isMultiSessionChantier st \<and>
      effectiveSessionId st \<noteq> [] \<and>
      filter (\<lambda>p. map_of (includeMap st) (SessionPhoto.id' p) \<noteq> Some False) (photosOf d) \<noteq> [] \<and>
      pubSession = Returns resS \<and> ok resS \<and> json' resS = Returns updated \<longrightarrow>
      toast (handlePublish st pubChantier pubSession notify)
        = Some \<lparr>type = Success, message = ''Rapport publie.''\<rparr> \<and>
      detail (handlePublish st pubChantier pubSession notify) = Some updated \<and>
      publishing (handlePublish st pubChantier pubSession notify) = False)
   \<and> (SessionPage.detail sp = Some d \<and> sessionId sp \<noteq> [] \<and> photosOf d \<noteq> [] \<and>
      pubSession = Returns resS \<and> ok resS \<and> json' resS = Returns updated \<longrightarrow>
      SessionPage.toast (handlePublishSession sp pubSession notify)
        = Some \<lparr>type = Success, message = ''Diagnostic publie et envoye a l'installateur.''\<rparr> \<and>
      SessionPage.detail (handlePublishSession sp pubSession notify) = Some updated \<and>
      SessionPage.publishing (handlePublishSession sp pubSession notify) = False)"
proof (intro conjI impI allI)
  assume a: "detail st \<noteq> None \<and> isChantierMode st \<and> chantier_id (chantierMeta st) = Some cid \<and>
    pubChantier = Returns resC \<and> ok resC \<and> json' resC = Returns data"
  then have c: "cid \<noteq> []" by (auto simp: isChantierMode_def)
  have e: "handlePublish st pubChantier pubSession notify = publishChantier st cid (Returns resC) notify"
    using a c by (auto simp: handlePublish_def)
  have ok: "ok resC" "json' resC = Returns data" using a by simp_all
  show "toast (handlePublish st pubChantier pubSession notify)
        = Some \<lparr>type = Success, message = ''Rapport chantier publie.''\<rparr>"
    "chantier (handlePublish st pubChantier pubSession notify)
        = Some (publishedChantier (chantier st) data)"
    "detail (handlePublish st pubChantier pubSession notify)
        = map_option (\<lambda>d. d\<lparr>SessionDetail.status := Some statusPublie\<rparr>) (detail st)"
    "publishing (handlePublish st pubChantier pubSession notify) = False"
    unfolding e publishChantier_success [OF ok] by simp_all
  have j: "chantierJson (handlePublish st pubChantier pubSession notify)
        = JObj (publishedChantier (chantier st) data)"
    unfolding e publishChantier_success [OF ok] by (simp add: chantierJson_def)
  fix v
  assume v: "truthy v \<and> (\<forall>es. v \<noteq> JObj es)"
  then have t: "truthy v" and s: "\<forall>es. v \<noteq> JObj es" by simp_all
  show "getProp (chantierJson (handlePublish st pubChantier pubSession notify)) ''status'' = v"
    if "getProp data ''status'' = v"
    unfolding j using that by (rule publishedChantier_top(1) [OF t s])
  show "getProp (chantierJson (handlePublish st pubChantier pubSession notify)) ''updated_at'' = v"
    if "getProp data ''updated_at'' = v"
    unfolding j using that by (rule publishedChantier_top(2) [OF t s])
  assume "\<forall>b. getProp (chantierJson st) ''publication'' = JObj b \<longrightarrow> distinct (map fst b)"
  then have wf: "\<forall>b. getProp (case chantier st of None \<Rightarrow> JNull | Some p \<Rightarrow> JObj p) ''publication'' = JObj b
               \<longrightarrow> distinct (map fst b)"
    by (simp add: chantierJson_def)
  show "getProp (getProp (chantierJson (handlePublish st pubChantier pubSession notify))
                  ''publication'') ''report_public_slug'' = v"
    if "getProp data ''public_slug'' = v"
    unfolding j using that by (intro publishedChantier_publication [OF t s wf]) simp
  show "getProp (getProp (chantierJson (handlePublish st pubChantier pubSession notify))
                  ''publication'') ''report_public_url'' = v"
    if "getProp data ''public_url'' = v"
    unfolding j using that by (intro publishedChantier_publication [OF t s wf]) simp
  show "getProp (getProp (chantierJson (handlePublish st pubChantier pubSession notify))
                  ''publication'') ''last_published_at'' = v"
    if "getProp data ''last_published_at'' = v"
    unfolding j using that by (intro publishedChantier_publication [OF t s wf]) simp
  show "getProp (getProp (chantierJson (handlePublish st pubChantier pubSession notify))
                  ''publication'') ''last_published_by'' = v"
    if "getProp data ''last_published_by'' = v"
    unfolding j using that by (intro publishedChantier_publication [OF t s wf]) simp
next
  assume a: "detail st = Some d \<and> \<not> isChantierMode st \<and> \<not> isMultiSessionChantier st \<and>
      effectiveSessionId st \<noteq> [] \<and>
      filter (\<lambda>p. map_of (includeMap st) (SessionPhoto.id' p) \<noteq> Some False) (photosOf d) \<noteq> [] \<and>
      pubSession = Returns resS \<and> ok resS \<and> json' resS = Returns updated"
  have e: "handlePublish st pubChantier pubSession notify =
      publishSession st (filter (\<lambda>p. map_of (includeMap st) (SessionPhoto.id' p) \<noteq> Some False) (photosOf d))
        (Returns resS) notify"
    using a by (simp add: handlePublish_def Let_def)
  have ok: "ok resS" "json' resS = Returns updated" using a by simp_all
  show "toast (handlePublish st pubChantier pubSession notify)
        = Some \<lparr>type = Success, message = ''Rapport publie.''\<rparr>"
    "detail (handlePublish st pubChantier pubSession notify) = Some updated"
    "publishing (handlePublish st pubChantier pubSession notify) = False"
    unfolding e publishSession_success [OF ok] by simp_all
next
  assume a: "SessionPage.detail sp = Some d \<and> sessionId sp \<noteq> [] \<and> photosOf d \<noteq> [] \<and>
      pubSession = Returns resS \<and> ok resS \<and> json' resS = Returns updated"
  then have h: "SessionPage.detail sp = Some d" "sessionId sp \<noteq> []" "photosOf d \<noteq> []"
    "ok resS" "json' resS = Returns updated" and p: "pubSession = Returns resS" by simp_all
  show "SessionPage.toast (handlePublishSession sp pubSession notify)
        = Some \<lparr>type = Success, message = ''Diagnostic publie et envoye a l'installateur.''\<rparr>"
    "SessionPage.detail (handlePublishSession sp pubSession notify) = Some updated"
    "SessionPage.publishing (handlePublishSession sp pubSession notify) = False"
    unfolding p handlePublishSession_success [OF h] by simp_all
qed

theorem publish_survives_notification_failure_witness:
  "toast (handlePublish publishedBefore
            (Returns (okJson (JObj [(''public_slug'', JStr ''r-ch1''),
                                    (''public_url'', JStr ''https://rapports.example/r/r-ch1''),
                                    (''status'', JStr ''PUBLISHED'')])))
            (Throws ''unused'') (Throws ''Failed to fetch''))
     = Some \<lparr>type = Success, message = ''Rapport chantier publie.''\<rparr>
   \<and> getProp (getProp (chantierJson (handlePublish publishedBefore
            (Returns (okJson (JObj [(''public_slug'', JStr ''r-ch1''),
                                    (''public_url'', JStr ''https://rapports.example/r/r-ch1''),
                                    (''status'', JStr ''PUBLISHED'')])))
            (Throws ''unused'') (Throws ''Failed to fetch''))) ''publication'') ''report_public_url''
     = JStr ''https://rapports.example/r/r-ch1''
   \<and> getProp (chantierJson (handlePublish publishedBefore
            (Returns (okJson (JObj [(''public_slug'', JStr ''r-ch1''),
                                    (''public_url'', JStr ''https://rapports.example/r/r-ch1''),
                                    (''status'', JStr ''PUBLISHED'')])))
            (Throws ''unused'') (Throws ''Failed to fetch''))) ''status''
     = JStr ''PUBLISHED''
   \<and> detail (handlePublish sessionPage (Throws ''unused'')
            (Returns (okSession (sessionS1\<lparr>SessionDetail.status := Some ''PUBLISHED''\<rparr>)))
            (Throws ''Failed to fetch''))
     = Some (sessionS1\<lparr>SessionDetail.status := Some ''PUBLISHED''\<rparr>)
   \<and> SessionPage.toast (handlePublishSession oldSessionPage
            (Returns (okSession (sessionS1\<lparr>SessionDetail.status := Some ''PUBLISHED''\<rparr>)))
            (Throws ''Failed to fetch''))
     = Some \<lparr>type = Success, message = ''Diagnostic publie et envoye a l'installateur.''\<rparr>"
proof -
  let ?upd = "sessionS1\<lparr>SessionDetail.status := Some ''PUBLISHED''\<rparr>"
  let ?data = "JObj [(''public_slug'', JStr ''r-ch1''),
                     (''public_url'', JStr ''https://rapports.example/r/r-ch1''),
                     (''status'', JStr ''PUBLISHED'')]"
  let ?out = "handlePublish publishedBefore (Returns (okJson ?data)) (Throws ''unused'')
                (Throws ''Failed to fetch'')"
  note t = publish_survives_notification_failure
    [where notify = "Throws ''Failed to fetch''" and d = sessionS1 and updated = ?upd
       and resS = "okSession ?upd" and resC = "okJson ?data" and data = ?data and cid = "''CH1''"]
  have h: "detail publishedBefore \<noteq> None \<and> isChantierMode publishedBefore \<and>
      chantier_id (chantierMeta publishedBefore) = Some ''CH1'' \<and>
      Returns (okJson ?data) = Returns (okJson ?data) \<and> ok (okJson ?data) \<and>
      json' (okJson ?data) = Returns ?data"
    by (simp add: publishedBefore_def page_simps isChantierMode_def)
  note c = t [where st = publishedBefore and pubChantier = "Returns (okJson ?data)"
               and pubSession = "Throws ''unused''", THEN conjunct1, rule_format, OF h]
  have wf: "\<forall>b. getProp (chantierJson publishedBefore) ''publication'' = JObj b \<longrightarrow> distinct (map fst b)"
    by (simp add: publishedBefore_def page_simps chantierJson_def getProp_def)
  have tv: "truthy (JStr ''https://rapports.example/r/r-ch1'') \<and>
      (\<forall>es. JStr ''https://rapports.example/r/r-ch1'' \<noteq> JObj es)"
    "truthy (JStr ''PUBLISHED'') \<and> (\<forall>es. JStr ''PUBLISHED'' \<noteq> JObj es)"
    by (simp_all add: truthy_def)
  have "toast ?out = Some \<lparr>type = Success, message = ''Rapport chantier publie.''\<rparr>"
    using c [THEN conjunct1] .
  moreover have "getProp (getProp (chantierJson ?out) ''publication'') ''report_public_url''
     = JStr ''https://rapports.example/r/r-ch1''"
    using c [THEN conjunct2, THEN conjunct2, THEN conjunct1, THEN spec,
        of "JStr ''https://rapports.example/r/r-ch1''", THEN mp, OF tv(1), THEN conjunct2,
        THEN conjunct2, THEN mp, OF wf, THEN conjunct2, THEN conjunct1]
    by (simp add: getProp_def)
  moreover have "getProp (chantierJson ?out) ''status'' = JStr ''PUBLISHED''"
    using c [THEN conjunct2, THEN conjunct2, THEN conjunct1, THEN spec,
        of "JStr ''PUBLISHED''", THEN mp, OF tv(2), THEN conjunct1]
    by (simp add: getProp_def)
  moreover have "detail (handlePublish sessionPage (Throws ''unused'') (Returns (okSession ?upd))
            (Throws ''Failed to fetch'')) = Some ?upd"
    using t [where st = sessionPage and pubChantier = "Throws ''unused''"
               and pubSession = "Returns (okSession ?upd)", THEN conjunct2, THEN conjunct1]
    by (simp add: page_simps isChantierMode_def isMultiSessionChantier_def effectiveSessionId_def
        orString_def photosOf_def)
  moreover have "SessionPage.toast (handlePublishSession oldSessionPage (Returns (okSession ?upd))
            (Throws ''Failed to fetch''))
     = Some \<lparr>type = Success, message = ''Diagnostic publie et envoye a l'installateur.''\<rparr>"
    using t [where sp = oldSessionPage and pubSession = "Returns (okSession ?upd)",
               THEN conjunct2, THEN conjunct2]
    by (simp add: page_simps photosOf_def)
  ultimately show ?thesis by (intro conjI)
qed
subsection \<open>Deletions\<close>

lemma handleDeleteRow_declined:
  "handleDeleteRow st row isUnattached False sessionAnswer chantierAnswer overview =
     st\<lparr>deleteError :=
          (if (case deletingKey st of None \<Rightarrow> False | Some k \<Rightarrow> k \<noteq> []) then None
           else if isUnattached then
             (if (case ChantierAggItem.session_ids row of None \<Rightarrow> [] | Some xs \<Rightarrow> xs) = []
              then Some ''Impossible de supprimer: aucune session detectee.'' else None)
           else
             (if trim (orEmpty (ChantierAggItem.chantier_id row)) = []
              then Some ''Impossible de supprimer: chantier_id manquant.'' else None))\<rparr>"
  by (simp add: handleDeleteRow_def Let_def)

lemma deleteNoteAsset_sent:
  assumes "effectiveSessionId dp \<noteq> []"
  shows "DetailPage.sent (deleteNoteAsset dp noteId assetId outcome) =
           DetailPage.sent dp @
             [\<lparr>api = InternalApi, verb = DELETE,
               path = ''/sessions/'' @ encodeURIComponent (effectiveSessionId dp) @
                      ''/notes/'' @ encodeURIComponent noteId @
                      ''/assets/'' @ encodeURIComponent assetId,
               body = None\<rparr>]"
proof (cases outcome)
  case (Throws msg)
  then show ?thesis using assms
    by (simp add: deleteNoteAsset_def deleteAssetFailed_def Let_def)
next
  case (Returns res)
  show ?thesis
  proof (cases "ok res")
    case True
    then show ?thesis using assms Returns
      by (simp add: deleteNoteAsset_def Let_def)
  next
    case False
    then show ?thesis using assms Returns
      by (cases "response.text' res") (simp_all add: deleteNoteAsset_def deleteAssetFailed_def Let_def)
  qed
qed

text \<open>
  Claim C7, as amended. The deletion of a row of the inbox (a session, a group of sessions
  or a chantier) sends nothing when the user does not confirm: no request is issued and the
  state is what it was, but for the error message of an earlier deletion, which the handler
  clears first (or sets, when the row has nothing to delete). The deletion of a visual of a
  note asks nothing: as soon as the page has a session, its \<^verbatim>\<open>DELETE\<close> request is sent.
\<close>

theorem delete_row_needs_confirmation:
  "(\<not> confirmed \<longrightarrow>
      ListPage.sent (handleDeleteRow st row isUnattached confirmed sessionAnswer chantierAnswer overview)
        = ListPage.sent st \<and>
      handleDeleteRow st row isUnattached confirmed sessionAnswer chantierAnswer overview
        = st\<lparr>deleteError :=
               deleteError (handleDeleteRow st row isUnattached confirmed sessionAnswer
                              chantierAnswer overview)\<rparr>)
   \<and> (effectiveSessionId dp \<noteq> [] \<longrightarrow>
      DetailPage.sent (deleteNoteAsset dp noteId assetId outcome) =
        DetailPage.sent dp @
          [\<lparr>api = InternalApi, verb = DELETE,
            path = ''/sessions/'' @ encodeURIComponent (effectiveSessionId dp) @
                   ''/notes/'' @ encodeURIComponent noteId @
                   ''/assets/'' @ encodeURIComponent assetId,
            body = None\<rparr>])"
proof (intro conjI impI)
  assume "\<not> confirmed"
  then have c: "confirmed = False" by simp
  show "ListPage.sent (handleDeleteRow st row isUnattached confirmed sessionAnswer chantierAnswer overview)
        = ListPage.sent st"
    unfolding c handleDeleteRow_declined by simp
  show "handleDeleteRow st row isUnattached confirmed sessionAnswer chantierAnswer overview
        = st\<lparr>deleteError :=
               deleteError (handleDeleteRow st row isUnattached confirmed sessionAnswer
                              chantierAnswer overview)\<rparr>"
    unfolding c handleDeleteRow_declined by simp
next
  assume "effectiveSessionId dp \<noteq> []"
  then show "DetailPage.sent (deleteNoteAsset dp noteId assetId outcome) =
        DetailPage.sent dp @
          [\<lparr>api = InternalApi, verb = DELETE,
            path = ''/sessions/'' @ encodeURIComponent (effectiveSessionId dp) @
                   ''/notes/'' @ encodeURIComponent noteId @
                   ''/assets/'' @ encodeURIComponent assetId,
            body = None\<rparr>]"
    by (rule deleteNoteAsset_sent)
qed

lemma enc_S1: "encodeURIComponent ''S1'' = ''S1''"
  by (simp add: encodeURIComponent_def isUnreserved_def)
lemma enc_n1: "encodeURIComponent ''n1'' = ''n1''"
  by (simp add: encodeURIComponent_def isUnreserved_def)
lemma enc_a1: "encodeURIComponent ''a1'' = ''a1''"
  by (simp add: encodeURIComponent_def isUnreserved_def)

lemma effectiveSessionId_notedPage: "effectiveSessionId notedPage = ''S1''"
  by (simp add: effectiveSessionId_def notedPage_def emptyPage_def orString_def)


theorem delete_row_needs_confirmation_witness:
  "ListPage.sent (handleDeleteRow inboxPage orphanRow True False
                    (\<lambda>sid. Throws ''unused'') (Throws ''unused'') (Throws ''unused'')) = []
   \<and> handleDeleteRow inboxPage orphanRow True False
                    (\<lambda>sid. Throws ''unused'') (Throws ''unused'') (Throws ''unused'')
       = inboxPage\<lparr>deleteError := None\<rparr>
   \<and> DetailPage.sent (deleteNoteAsset notedPage ''n1'' ''a1'' (Throws ''Failed to fetch''))
       = [\<lparr>api = InternalApi, verb = DELETE, path = ''/sessions/S1/notes/n1/assets/a1'',
           body = None\<rparr>]"
proof -
  note t = delete_row_needs_confirmation
    [where st = inboxPage and row = orphanRow and isUnattached = True and confirmed = False
       and sessionAnswer = "\<lambda>sid. Throws ''unused''" and chantierAnswer = "Throws ''unused''"
       and overview = "Throws ''unused''" and dp = notedPage and noteId = "''n1''"
       and assetId = "''a1''" and outcome = "Throws ''Failed to fetch''"]
  have d: "deleteError (handleDeleteRow inboxPage orphanRow True False
                    (\<lambda>sid. Throws ''unused'') (Throws ''unused'') (Throws ''unused'')) = None"
    by (simp add: handleDeleteRow_declined) (simp add: inboxPage_def orphanRow_def)
  have s: "DetailPage.sent notedPage = []" by (simp add: notedPage_def emptyPage_def)
  have l: "ListPage.sent inboxPage = []" by (simp add: inboxPage_def)
  show ?thesis
    using t by (simp add: d s l effectiveSessionId_notedPage enc_S1 enc_n1 enc_a1)
qed

text \<open>
  Claim C7 as stated fails for the visual of a note: the click on its cross sends the
  \<^verbatim>\<open>DELETE\<close> request and, when the server accepts, removes the visual, and no
  confirmation is part of it.
\<close>

theorem asset_delete_unconfirmed_counterexample:
  "DetailPage.sent (onClickDeleteAsset notedPage ''a1'' (Returns (okJson JNull)))
     = [\<lparr>api = InternalApi, verb = DELETE, path = ''/sessions/S1/notes/n1/assets/a1'',
         body = None\<rparr>]
   \<and> notes' (onClickDeleteAsset notedPage ''a1'' (Returns (okJson JNull)))
     = [\<lparr>id' = ''n1'', text' = ''Ancien texte'', photo_ids = [], assets = Some [],
         updated_at = Some 1, created_at = Some 1\<rparr>]"
proof -
  have c: "onClickDeleteAsset notedPage ''a1'' (Returns (okJson JNull))
             = deleteNoteAsset notedPage ''n1'' ''a1'' (Returns (okJson JNull))"
    by (simp add: onClickDeleteAsset_def notedPage_def emptyPage_def)
  have "notes' (deleteNoteAsset notedPage ''n1'' ''a1'' (Returns (okJson JNull)))
     = [\<lparr>id' = ''n1'', text' = ''Ancien texte'', photo_ids = [], assets = Some [],
         updated_at = Some 1, created_at = Some 1\<rparr>]"
    by (simp add: deleteNoteAsset_def effectiveSessionId_notedPage okJson_def Let_def)
       (simp add: notedPage_def emptyPage_def assetsOf_def)
  moreover have "DetailPage.sent (deleteNoteAsset notedPage ''n1'' ''a1'' (Returns (okJson JNull)))
     = [\<lparr>api = InternalApi, verb = DELETE, path = ''/sessions/S1/notes/n1/assets/a1'',
         body = None\<rparr>]"
    by (simp add: deleteNoteAsset_def effectiveSessionId_notedPage okJson_def Let_def
        enc_S1 enc_n1 enc_a1)
       (simp add: notedPage_def emptyPage_def)
  ultimately show ?thesis unfolding c by simp
qed


subsection \<open>Public report pages\<close>

lemma loadReport_no_slug: "ReportPage.slug st = [] \<Longrightarrow> loadReport st outcome cancelled = st"
  by (simp add: loadReport_def)

lemma loadReport_sent:
  "ReportPage.slug st \<noteq> [] \<Longrightarrow>
   ReportPage.sent (loadReport st outcome cancelled) =
     ReportPage.sent st @
       [\<lparr>api = InternalApi, verb = GET,
         path = ''/chantiers/public/'' @ encodeURIComponent (ReportPage.slug st), body = None\<rparr>]"
  by (simp add: loadReport_def loadReportFailed_def Let_def split: attempt.splits)

lemma loadReport_failed:
  assumes "ReportPage.slug st \<noteq> []"
    and "outcome = Throws msg \<or> (outcome = Returns res \<and> \<not> ok res)"
  shows "ReportPage.loading (loadReport st outcome False) = False"
    and "data' (loadReport st outcome False) = None"
    and "ReportPage.slug (loadReport st outcome False) = ReportPage.slug st"
  using assms
  by (auto simp: loadReport_def loadReportFailed_def Let_def split: attempt.splits)

lemma loadPublicSession_no_slug:
  "PublicSessionPage.slug sp = [] \<Longrightarrow> loadPublicSession sp outcome = sp"
  by (simp add: loadPublicSession_def)

lemma loadPublicSession_sent:
  "PublicSessionPage.slug sp \<noteq> [] \<Longrightarrow>
   PublicSessionPage.sent (loadPublicSession sp outcome) =
     PublicSessionPage.sent sp @
       [\<lparr>api = InternalApi, verb = GET,
         path = ''/sessions/public/'' @ PublicSessionPage.slug sp, body = None\<rparr>]"
  by (simp add: loadPublicSession_def Let_def split: attempt.splits)

lemma loadPublicSession_failed:
  assumes "PublicSessionPage.slug sp \<noteq> []"
    and "outcome = Throws msg \<or> (outcome = Returns res \<and> \<not> ok res)"
  shows "PublicSessionPage.loading (loadPublicSession sp outcome) = False"
    and "session (loadPublicSession sp outcome) = None"
    and "PublicSessionPage.slug (loadPublicSession sp outcome) = PublicSessionPage.slug sp"
  using assms
  by (auto simp: loadPublicSession_def Let_def split: attempt.splits)


text \<open>
  Claim C8, as amended. On both public pages: without a slug the effect sends nothing and
  changes nothing, and the page shows the placeholder of a pending load; with a slug whose
  request is rejected or answered by a response that is not \<^verbatim>\<open>ok\<close>, the page shows the
  explicit state of a report that is not found; and the only request a load ever sends is
  a \<^verbatim>\<open>GET\<close>.
\<close>

theorem public_pages_slug_states:
  "(ReportPage.slug st = [] \<longrightarrow>
      loadReport st outcome cancelled = st \<and> renderReport st = ShowLoading)
   \<and> (ReportPage.slug st \<noteq> [] \<and>
       (outcome = Throws msg \<or> (outcome = Returns res \<and> \<not> ok res)) \<longrightarrow>
      (\<exists>m. renderReport (loadReport st outcome False) = ShowNotFound m))
   \<and> (\<forall>r\<in>set (ReportPage.sent (loadReport st outcome cancelled)).
         r \<in> set (ReportPage.sent st) \<or> verb r = GET)
   \<and> (PublicSessionPage.slug sp = [] \<longrightarrow>
      loadPublicSession sp outcome = sp \<and> renderPublicSession sp = ShowLoading)
   \<and> (PublicSessionPage.slug sp \<noteq> [] \<and>
       (outcome = Throws msg \<or> (outcome = Returns res \<and> \<not> ok res)) \<longrightarrow>
      renderPublicSession (loadPublicSession sp outcome) = ShowNotFound ''Session introuvable'')
   \<and> (\<forall>r\<in>set (PublicSessionPage.sent (loadPublicSession sp outcome)).
         r \<in> set (PublicSessionPage.sent sp) \<or> verb r = GET)"
proof (intro conjI impI)
  assume "ReportPage.slug st = []"
  then show "loadReport st outcome cancelled = st" "renderReport st = ShowLoading"
    by (simp_all add: loadReport_no_slug renderReport_def)
next
  assume a: "ReportPage.slug st \<noteq> [] \<and>
       (outcome = Throws msg \<or> (outcome = Returns res \<and> \<not> ok res))"
  then have s: "ReportPage.slug st \<noteq> []"
    and f: "outcome = Throws msg \<or> (outcome = Returns res \<and> \<not> ok res)" by simp_all
  show "\<exists>m. renderReport (loadReport st outcome False) = ShowNotFound m"
    using s by (simp add: renderReport_def loadReport_failed [OF s f])
next
  show "\<forall>r\<in>set (ReportPage.sent (loadReport st outcome cancelled)).
         r \<in> set (ReportPage.sent st) \<or> verb r = GET"
  proof (cases "ReportPage.slug st = []")
    case True
    then show ?thesis by (simp add: loadReport_no_slug)
  next
    case False
    then show ?thesis by (auto simp: loadReport_sent)
  qed
next
  assume "PublicSessionPage.slug sp = []"
  then show "loadPublicSession sp outcome = sp" "renderPublicSession sp = ShowLoading"
    by (simp_all add: loadPublicSession_no_slug renderPublicSession_def)
next
  assume a: "PublicSessionPage.slug sp \<noteq> [] \<and>
       (outcome = Throws msg \<or> (outcome = Returns res \<and> \<not> ok res))"
  then have s: "PublicSessionPage.slug sp \<noteq> []"
    and f: "outcome = Throws msg \<or> (outcome = Returns res \<and> \<not> ok res)" by simp_all
  show "renderPublicSession (loadPublicSession sp outcome) = ShowNotFound ''Session introuvable''"
    using s by (simp add: renderPublicSession_def loadPublicSession_failed [OF s f])
next
  show "\<forall>r\<in>set (PublicSessionPage.sent (loadPublicSession sp outcome)).
         r \<in> set (PublicSessionPage.sent sp) \<or> verb r = GET"
  proof (cases "PublicSessionPage.slug sp = []")
    case True
    then show ?thesis by (simp add: loadPublicSession_no_slug)
  next
    case False
    then show ?thesis by (auto simp: loadPublicSession_sent)
  qed
qed

theorem public_pages_slug_states_witness:
  "(\<exists>m. renderReport (loadReport (reportPage ''inconnu'') (Returns notFound404) False)
          = ShowNotFound m)
   \<and> renderPublicSession (loadPublicSession (publicSessionPage ''inconnu'') (Throws ''Failed to fetch''))
     = ShowNotFound ''Session introuvable''
   \<and> loadReport (reportPage []) (Returns notFound404) False = reportPage []
   \<and> loadPublicSession (publicSessionPage []) (Returns notFound404) = publicSessionPage []"
proof -
  note t = public_pages_slug_states [where msg = "''Failed to fetch''" and res = notFound404]
  have s1: "ReportPage.slug (reportPage s) = s" for s by (simp add: reportPage_def)
  have s2: "PublicSessionPage.slug (publicSessionPage s) = s" for s
    by (simp add: publicSessionPage_def)
  have n: "\<not> ok notFound404" by (simp add: notFound404_def)
  have "\<exists>m. renderReport (loadReport (reportPage ''inconnu'') (Returns notFound404) False)
          = ShowNotFound m"
    using t [where st = "reportPage ''inconnu''" and outcome = "Returns notFound404",
             THEN conjunct2, THEN conjunct1]
    by (simp add: s1 n)
  moreover have "renderPublicSession
       (loadPublicSession (publicSessionPage ''inconnu'') (Throws ''Failed to fetch''))
     = ShowNotFound ''Session introuvable''"
    using t [where sp = "publicSessionPage ''inconnu''" and outcome = "Throws ''Failed to fetch''",
             THEN conjunct2, THEN conjunct2, THEN conjunct2, THEN conjunct2, THEN conjunct1]
    by (simp add: s2)
  moreover have "loadReport (reportPage []) (Returns notFound404) False = reportPage []"
    using t [where st = "reportPage []" and outcome = "Returns notFound404" and cancelled = False,
             THEN conjunct1]
    by (simp add: s1)
  moreover have "loadPublicSession (publicSessionPage []) (Returns notFound404) = publicSessionPage []"
    using t [where sp = "publicSessionPage []" and outcome = "Returns notFound404",
             THEN conjunct2, THEN conjunct2, THEN conjunct2, THEN conjunct1]
    by (simp add: s2)
  ultimately show ?thesis by blast
qed

text \<open>
  Claim C8 as stated fails for a missing slug: both pages stay on the placeholder of the
  load, which the test \<^verbatim>\<open>loading || !slug\<close> selects before the state that is not found.
\<close>

theorem missing_slug_counterexample:
  "renderReport (loadReport (reportPage []) (Returns notFound404) False) = ShowLoading
   \<and> renderPublicSession (loadPublicSession (publicSessionPage []) (Returns notFound404))
       = ShowLoading"
  by (simp add: loadReport_no_slug loadPublicSession_no_slug reportPage_def publicSessionPage_def
      renderReport_def renderPublicSession_def)

end
